theory Spec2Isabelle
  imports Main "HOL-Library.AList" "HOL-Library.Multiset"
begin

section \<open>Data model (manager/src/models.py)\<close>

text \<open>
  \<^verbatim>\<open>class EpisodeStatus(str, enum.Enum)\<close> declares exactly five members. The handlers of
  main.py also read the attribute \<^verbatim>\<open>EpisodeStatus.IGNORED\<close>; attribute access on an enum
  class is modelled by \<open>EpisodeStatus_getattr\<close> below, which raises AttributeError for a
  name the class does not declare, as Python does.
\<close>

datatype EpisodeStatus = DISCOVERED | QUEUED | PROCESSING | CLEANED | FAILED

datatype error =
    HTTPException nat string
  | AttributeError string
  | RuntimeError string
  | OperationalError
  | FeedUnreachable
  | FeedUnparsable

definition EpisodeStatus_members :: "(string \<times> EpisodeStatus) list" where
  "EpisodeStatus_members =
     [(''DISCOVERED'', DISCOVERED), (''QUEUED'', QUEUED), (''PROCESSING'', PROCESSING),
      (''CLEANED'', CLEANED), (''FAILED'', FAILED)]"

definition EpisodeStatus_getattr :: "string \<Rightarrow> error + EpisodeStatus" where
  "EpisodeStatus_getattr name =
     (case map_of EpisodeStatus_members name of
        Some s \<Rightarrow> Inr s
      | None \<Rightarrow> Inl (AttributeError name))"

text \<open>Instants (\<^verbatim>\<open>datetime\<close>) are integers; only their order matters here.\<close>

type_synonym datetime = int

text \<open>
  The two tables. \<open>fd_id\<close> and \<open>ep_id\<close> are the \<^verbatim>\<open>id\<close> primary keys; the Feed columns
  carry the prefix \<open>fd_\<close> where Episode has a column of the same name.
\<close>

record Feed =
  fd_id :: int
  fd_title :: string
  rss_url :: string
  auto_process :: bool
  fd_created_at :: datetime
  fd_updated_at :: datetime

record Episode =
  ep_id :: int
  feed_id :: int
  guid :: string
  status :: EpisodeStatus
  title :: string
  audio_url :: string
  local_filename :: "string option"
  created_at :: datetime
  updated_at :: datetime

section \<open>The coordinator's world and its environment\<close>

text \<open>The dict sent to observers by \<^verbatim>\<open>manager.broadcast\<close>.\<close>

record progress_event =
  ev_episode_id :: int
  progress :: int
  stage :: string

text \<open>The Celery message placed on the work channel by \<^verbatim>\<open>send_task\<close>.\<close>

record task_message =
  task_name :: string
  task_args :: "int \<times> string \<times> string"
  task_queue :: string

text \<open>
  Everything a request handler can read or write: the two tables with their id sequences,
  the audio directory (path relative to \<^verbatim>\<open>AUDIO_STORAGE_PATH\<close> and content), the broker's
  queue, the set \<^verbatim>\<open>manager.active_connections\<close> (websockets are numbered; the Python set is
  a duplicate-free list here, iterated in list order) and, for observation only, the log
  of what each websocket was sent.
\<close>

record World =
  feeds :: "Feed list"
  episodes :: "Episode list"
  feed_seq :: int
  episode_seq :: int
  files :: "(string \<times> string) list"
  broker :: "task_message list"
  active_connections :: "nat list"
  sent :: "(nat \<times> progress_event) list"

definition init_world :: World where
  "init_world =
     \<lparr>feeds = [], episodes = [], feed_seq = 0, episode_seq = 0, files = [], broker = [],
      active_connections = [], sent = []\<rparr>"

text \<open>The parsed channel metadata and items of a source document (manager/src/ingest.py).\<close>

record FeedMetadata =
  md_title :: string
  md_description :: "string option"
  md_image_url :: "string option"
  md_author :: "string option"

record FeedItem =
  item_guid :: "string option"
  item_title :: string
  item_audio_url :: string

text \<open>
  What other coroutines do to \<^verbatim>\<open>manager.active_connections\<close> while a handler is suspended
  in an \<^verbatim>\<open>await\<close>: a websocket is accepted and added, or one is discarded (by its own
  handler on disconnect, or by another broadcast removing a failed one).
\<close>

datatype conn_event = Connected nat | Disconnected nat

text \<open>
  What the outside decides during one request: the clock (one reading of
  \<^verbatim>\<open>datetime.utcnow()\<close> per request), whether writing the uploaded file succeeds, which
  websockets accept a \<^verbatim>\<open>send_json\<close>, what happens to the connection set while the send to
  a websocket is awaited, for which episode the \<^verbatim>\<open>send_task\<close> call reaches the broker (each
  call fails or succeeds on its own; a request dispatches an episode at most once) and the
  task id the broker hands out, and what the source document of a feed yields.
\<close>

record Env =
  utcnow :: datetime
  storage_ok :: bool
  send_ok :: "nat \<Rightarrow> bool"
  during_send :: "nat \<Rightarrow> conn_event list"
  broker_up :: "int \<Rightarrow> bool"
  new_task_id :: "nat \<Rightarrow> string"
  extract_feed_metadata :: "string \<Rightarrow> FeedMetadata option"
  fetch_feed :: "string \<Rightarrow> error + FeedItem list"

section \<open>Python helpers\<close>

text \<open>\<^verbatim>\<open>str(n)\<close> for an int: decimal digits, with a minus sign when negative.\<close>

definition digit_char :: "nat \<Rightarrow> char" where
  "digit_char d = ''0123456789'' ! d"

fun str_nat :: "nat \<Rightarrow> string" where
  "str_nat n = (if n < 10 then [digit_char n] else str_nat (n div 10) @ [digit_char (n mod 10)])"

declare str_nat.simps [simp del]

definition str_int :: "int \<Rightarrow> string" where
  "str_int i = (if i < 0 then CHR ''-'' # str_nat (nat (- i)) else str_nat (nat i))"

text \<open>\<^verbatim>\<open>s.endswith(suffix)\<close> and \<^verbatim>\<open>s.replace('/', '_')\<close>.\<close>

definition endswith :: "string \<Rightarrow> string \<Rightarrow> bool" where
  "endswith s suf \<longleftrightarrow> length suf \<le> length s \<and> drop (length s - length suf) s = suf"

definition replace_slash :: "string \<Rightarrow> string" where
  "replace_slash s = map (\<lambda>c. if c = CHR ''/'' then CHR ''_'' else c) s"

text \<open>Python truthiness of an \<^verbatim>\<open>Optional[str]\<close>: None and the empty string are falsy.\<close>

fun truthy :: "string option \<Rightarrow> bool" where
  "truthy None = False"
| "truthy (Some s) = (s \<noteq> [])"

section \<open>The session (manager/src/database.py)\<close>

text \<open>
  \<^verbatim>\<open>session.get(Episode, id)\<close> is the row with that primary key, \<^verbatim>\<open>session.add\<close> of a
  loaded row followed by a flush is \<^verbatim>\<open>UPDATE ... WHERE id = ?\<close>. A handler works on its
  own copy of the tables; they reach the world when it commits, and a handler that raises
  before its commit leaves the world's tables as they were.
\<close>

definition session_get :: "Episode list \<Rightarrow> int \<Rightarrow> Episode option" where
  "session_get tbl i = find (\<lambda>e. ep_id e = i) tbl"

definition session_add :: "Episode \<Rightarrow> Episode list \<Rightarrow> Episode list" where
  "session_add e tbl = map (\<lambda>x. if ep_id x = ep_id e then e else x) tbl"

definition get_feed :: "Feed list \<Rightarrow> int \<Rightarrow> Feed option" where
  "get_feed tbl i = find (\<lambda>f. fd_id f = i) tbl"

section \<open>ConnectionManager (manager/src/main.py)\<close>

definition connect :: "nat \<Rightarrow> World \<Rightarrow> World" where
  "connect websocket w =
     (if websocket \<in> set (active_connections w) then w
      else w\<lparr>active_connections := active_connections w @ [websocket]\<rparr>)"

definition disconnect :: "nat \<Rightarrow> World \<Rightarrow> World" where
  "disconnect websocket w =
     w\<lparr>active_connections := filter (\<lambda>c. c \<noteq> websocket) (active_connections w)\<rparr>"

fun conn_step :: "conn_event \<Rightarrow> World \<Rightarrow> World" where
  "conn_step (Connected c) w = connect c w"
| "conn_step (Disconnected c) w = disconnect c w"

text \<open>
  \<^verbatim>\<open>broadcast\<close>. The for loop iterates the live set \<^verbatim>\<open>self.active_connections\<close> and
  awaits one \<^verbatim>\<open>send_json\<close> per connection inside try/except Exception: a send that raises
  puts the connection into \<open>disconnected\<close>, a send that returns is logged in \<open>sent\<close>.
  While a send is awaited other coroutines run (\<open>during_send\<close>). Each time the loop asks
  the set iterator for its next element, also the last time, when none is left, the
  iterator compares the set's size with the size it had when the loop began (\<open>used\<close>) and
  raises \<^verbatim>\<open>RuntimeError: Set changed size during iteration\<close> if they differ. That is outside
  the try: it leaves \<^verbatim>\<open>broadcast\<close> before \<^verbatim>\<open>self.active_connections -= disconnected\<close> and
  reaches the caller. The elements still to visit are those of the set as it was when
  the loop began (\<open>rest\<close>); which elements CPython visits after a change that keeps the
  size is not specified, and the model keeps to \<open>rest\<close> there as well. The result is the
  world and the exception, if any.
\<close>

definition set_changed_size :: error where
  "set_changed_size = RuntimeError ''Set changed size during iteration''"

fun broadcast_loop ::
  "Env \<Rightarrow> progress_event \<Rightarrow> nat \<Rightarrow> nat list \<Rightarrow> nat list \<Rightarrow> World \<Rightarrow> World \<times> error option" where
  "broadcast_loop env message used [] disconnected w =
     (if length (active_connections w) \<noteq> used then (w, Some set_changed_size)
      else (w\<lparr>active_connections :=
                filter (\<lambda>c. c \<notin> set disconnected) (active_connections w)\<rparr>, None))"
| "broadcast_loop env message used (connection # rest) disconnected w =
     (if length (active_connections w) \<noteq> used then (w, Some set_changed_size)
      else if send_ok env connection
      then broadcast_loop env message used rest disconnected
             (fold conn_step (during_send env connection)
                (w\<lparr>sent := sent w @ [(connection, message)]\<rparr>))
      else broadcast_loop env message used rest (connection # disconnected)
             (fold conn_step (during_send env connection) w))"

definition broadcast :: "Env \<Rightarrow> progress_event \<Rightarrow> World \<Rightarrow> World \<times> error option" where
  "broadcast env message w =
     broadcast_loop env message (length (active_connections w)) (active_connections w) [] w"

definition update_progress :: "Env \<Rightarrow> int \<Rightarrow> int \<Rightarrow> string \<Rightarrow> World \<Rightarrow> World \<times> (error + string)" where
  "update_progress env episode_id prog stg w =
     (case broadcast env \<lparr>ev_episode_id = episode_id, progress = prog, stage = stg\<rparr> w of
        (w', Some e) \<Rightarrow> (w', Inl e)
      | (w', None) \<Rightarrow> (w', Inr ''ok''))"

section \<open>Callback resolver: upload_cleaned_audio\<close>

record UploadFile =
  filename :: "string option"
  content_type :: "string option"
  content :: string

record upload_response =
  up_message :: string
  up_episode_id :: int
  up_local_filename :: "string option"

text \<open>
  The handler in source order: 404 for an unknown id, 400 unless the file name is non-empty
  and ends in .mp3, the write of the file under \<^verbatim>\<open>str(feed_id)/safe_filename\<close> (500 when it
  raises), then the row update with its commit, the broadcast and the response; an
  exception of the broadcast leaves the handler after the commit. The handler never reads
  \<open>content_type\<close> and never reads the episode's status. A failed write is modelled as
  leaving the directory as it was.
\<close>

definition upload_cleaned_audio ::
  "Env \<Rightarrow> int \<Rightarrow> UploadFile \<Rightarrow> World \<Rightarrow> World \<times> (error + upload_response)" where
  "upload_cleaned_audio env episode_id file w =
     (case session_get (episodes w) episode_id of
        None \<Rightarrow> (w, Inl (HTTPException 404 (''Episode '' @ str_int episode_id @ '' not found'')))
      | Some episode \<Rightarrow>
          (if \<not> truthy (filename file) \<or> \<not> endswith (the (filename file)) ''.mp3''
           then (w, Inl (HTTPException 400 ''Only MP3 files are accepted''))
           else
             let safe_filename = str_int episode_id @ ''_'' @ replace_slash (the (filename file));
                 file_path = str_int (feed_id episode) @ ''/'' @ safe_filename
             in if \<not> storage_ok env
                then (w, Inl (HTTPException 500 ''Failed to save file''))
                else
                  let episode' = episode\<lparr>local_filename := Some file_path, status := CLEANED,
                                         updated_at := utcnow env\<rparr>;
                      w1 = w\<lparr>files := AList.update file_path (content file) (files w),
                             episodes := session_add episode' (episodes w)\<rparr>
                  in (case broadcast env
                             \<lparr>ev_episode_id = episode_id, progress = 100, stage = ''completed''\<rparr> w1 of
                        (w2, Some e) \<Rightarrow> (w2, Inl e)
                      | (w2, None) \<Rightarrow>
                          (w2, Inr \<lparr>up_message = ''File uploaded successfully'',
                                    up_episode_id = episode_id,
                                    up_local_filename = local_filename episode'\<rparr>))))"

section \<open>Work dispatcher (manager/src/tasks.py)\<close>

text \<open>The default of the \<^verbatim>\<open>MANAGER_BASE_URL\<close> environment variable.\<close>

definition MANAGER_BASE_URL :: string where
  "MANAGER_BASE_URL = ''http://web:8000''"

text \<open>
  \<^verbatim>\<open>celery_app.send_task\<close> raises when this call cannot reach the broker and otherwise
  appends the message to the queue and returns a task whose id the broker side chose.
\<close>

definition dispatch_episode_processing ::
  "Env \<Rightarrow> int \<Rightarrow> string \<Rightarrow> task_message list \<Rightarrow> error + (string \<times> task_message list)" where
  "dispatch_episode_processing env episode_id url q =
     (let callback_url = MANAGER_BASE_URL @ ''/upload/'' @ str_int episode_id in
      if broker_up env episode_id
      then Inr (new_task_id env (length q),
                q @ [\<lparr>task_name = ''worker.process_episode'',
                       task_args = (episode_id, url, callback_url),
                       task_queue = ''audio_processing''\<rparr>])
      else Inl OperationalError)"

section \<open>Bulk operations on episodes\<close>

text \<open>
  \<open>queue_loop\<close> is the for loop of \<^verbatim>\<open>queue_episodes\<close>; its accumulator is the session's
  episode table, the broker queue, \<^verbatim>\<open>queued_count\<close> and \<^verbatim>\<open>dispatched_tasks\<close>. The except
  branch around the dispatch only logs.
\<close>

fun queue_loop ::
  "Env \<Rightarrow> int list \<Rightarrow> Episode list \<times> task_message list \<times> nat \<times> (int \<times> string) list
     \<Rightarrow> Episode list \<times> task_message list \<times> nat \<times> (int \<times> string) list" where
  "queue_loop env [] acc = acc"
| "queue_loop env (episode_id # rest) (tbl, q, queued_count, dispatched_tasks) =
     (case session_get tbl episode_id of
        None \<Rightarrow> queue_loop env rest (tbl, q, queued_count, dispatched_tasks)
      | Some episode \<Rightarrow>
          if status episode \<in> {DISCOVERED, FAILED}
          then
            let tbl' = session_add (episode\<lparr>status := QUEUED, updated_at := utcnow env\<rparr>) tbl
            in (case dispatch_episode_processing env episode_id (audio_url episode) q of
                  Inr (task_id, q') \<Rightarrow>
                    queue_loop env rest
                      (tbl', q', queued_count + 1, dispatched_tasks @ [(episode_id, task_id)])
                | Inl e \<Rightarrow> queue_loop env rest (tbl', q, queued_count + 1, dispatched_tasks))
          else queue_loop env rest (tbl, q, queued_count, dispatched_tasks))"

definition queue_episodes ::
  "Env \<Rightarrow> int list \<Rightarrow> World \<Rightarrow> World \<times> (error + nat \<times> (int \<times> string) list)" where
  "queue_episodes env episode_ids w =
     (case queue_loop env episode_ids (episodes w, broker w, 0, []) of
        (tbl, q, queued_count, dispatched_tasks) \<Rightarrow>
          (w\<lparr>episodes := tbl, broker := q\<rparr>, Inr (queued_count, dispatched_tasks)))"

text \<open>
  The loops of \<^verbatim>\<open>ignore_episodes\<close> and \<^verbatim>\<open>unignore_episodes\<close>. Each reads
  \<^verbatim>\<open>EpisodeStatus.IGNORED\<close>: the first in the assignment, reached for a row that is
  DISCOVERED or FAILED; the second in the comparison, reached for every row that exists
  (\<^verbatim>\<open>episode and ...\<close> short-circuits on a missing row only). An exception leaves the loop
  before the commit.
\<close>

fun ignore_loop :: "Env \<Rightarrow> int list \<Rightarrow> Episode list \<times> nat \<Rightarrow> error + Episode list \<times> nat" where
  "ignore_loop env [] acc = Inr acc"
| "ignore_loop env (episode_id # rest) (tbl, ignored_count) =
     (case session_get tbl episode_id of
        None \<Rightarrow> ignore_loop env rest (tbl, ignored_count)
      | Some episode \<Rightarrow>
          if status episode \<in> {DISCOVERED, FAILED}
          then (case EpisodeStatus_getattr ''IGNORED'' of
                  Inl e \<Rightarrow> Inl e
                | Inr ignored \<Rightarrow>
                    ignore_loop env rest
                      (session_add (episode\<lparr>status := ignored, updated_at := utcnow env\<rparr>) tbl,
                       ignored_count + 1))
          else ignore_loop env rest (tbl, ignored_count))"

definition ignore_episodes :: "Env \<Rightarrow> int list \<Rightarrow> World \<Rightarrow> World \<times> (error + nat)" where
  "ignore_episodes env episode_ids w =
     (case ignore_loop env episode_ids (episodes w, 0) of
        Inl e \<Rightarrow> (w, Inl e)
      | Inr (tbl, ignored_count) \<Rightarrow> (w\<lparr>episodes := tbl\<rparr>, Inr ignored_count))"

fun unignore_loop :: "Env \<Rightarrow> int list \<Rightarrow> Episode list \<times> nat \<Rightarrow> error + Episode list \<times> nat" where
  "unignore_loop env [] acc = Inr acc"
| "unignore_loop env (episode_id # rest) (tbl, restored_count) =
     (case session_get tbl episode_id of
        None \<Rightarrow> unignore_loop env rest (tbl, restored_count)
      | Some episode \<Rightarrow>
          (case EpisodeStatus_getattr ''IGNORED'' of
             Inl e \<Rightarrow> Inl e
           | Inr ignored \<Rightarrow>
               if status episode = ignored
               then unignore_loop env rest
                      (session_add (episode\<lparr>status := DISCOVERED, updated_at := utcnow env\<rparr>) tbl,
                       restored_count + 1)
               else unignore_loop env rest (tbl, restored_count)))"

definition unignore_episodes :: "Env \<Rightarrow> int list \<Rightarrow> World \<Rightarrow> World \<times> (error + nat)" where
  "unignore_episodes env episode_ids w =
     (case unignore_loop env episode_ids (episodes w, 0) of
        Inl e \<Rightarrow> (w, Inl e)
      | Inr (tbl, restored_count) \<Rightarrow> (w\<lparr>episodes := tbl\<rparr>, Inr restored_count))"

section \<open>Feed ingestion\<close>

text \<open>
  Modelled from the spec: \<^verbatim>\<open>ingest_feed\<close> (manager/src/ingest.py, imported by main.py) is
  not among the sources. Spec section 4.2: fetch and parse the feed's document; for each
  item compute its guid (a key derived from title and audio link when the document has
  none) and, if an Episode with that guid exists under the feed, leave it untouched,
  otherwise create it in DISCOVERED state; return the newly created Episodes only; fail
  with FeedUnreachable or FeedUnparsable when the document cannot be fetched or parsed.
  Section 7: such a failure is surfaced without creating partial state. A new row takes
  the column defaults of models.py (status DISCOVERED, local_filename None) and the next
  value of the id sequence.
\<close>

definition item_key :: "FeedItem \<Rightarrow> string" where
  "item_key it = (case item_guid it of Some g \<Rightarrow> g | None \<Rightarrow> item_title it @ item_audio_url it)"

fun ingest_items ::
  "datetime \<Rightarrow> int \<Rightarrow> FeedItem list \<Rightarrow> Episode list \<times> int \<times> Episode list
     \<Rightarrow> Episode list \<times> int \<times> Episode list" where
  "ingest_items now fid [] acc = acc"
| "ingest_items now fid (it # rest) (tbl, seq, new_episodes) =
     (if \<exists>e \<in> set tbl. feed_id e = fid \<and> guid e = item_key it
      then ingest_items now fid rest (tbl, seq, new_episodes)
      else
        let episode = \<lparr>ep_id = seq + 1, feed_id = fid, guid = item_key it, status = DISCOVERED,
                       title = item_title it, audio_url = item_audio_url it,
                       local_filename = None, created_at = now, updated_at = now\<rparr>
        in ingest_items now fid rest (tbl @ [episode], seq + 1, new_episodes @ [episode]))"

definition ingest_feed :: "Env \<Rightarrow> int \<Rightarrow> World \<Rightarrow> error + World \<times> Episode list" where
  "ingest_feed env fid w =
     (case get_feed (feeds w) fid of
        None \<Rightarrow> Inl FeedUnreachable
      | Some feed \<Rightarrow>
          (case fetch_feed env (rss_url feed) of
             Inl e \<Rightarrow> Inl e
           | Inr items \<Rightarrow>
               (case ingest_items (utcnow env) fid items (episodes w, episode_seq w, []) of
                  (tbl, seq, new_episodes) \<Rightarrow>
                    Inr (w\<lparr>episodes := tbl, episode_seq := seq\<rparr>, new_episodes))))"

section \<open>Feed operations (manager/src/main.py)\<close>

text \<open>
  \<^verbatim>\<open>create_feed\<close>: 400 for a known URL, 400 when no metadata comes back, then the Feed row
  is added and committed (the keyword arguments description, image_url and author name
  no column of models.py and are dropped), the ingestion pass runs inside try/except
  Exception, and the feed is returned.
\<close>

definition create_feed :: "Env \<Rightarrow> string \<Rightarrow> World \<Rightarrow> World \<times> (error + Feed)" where
  "create_feed env url w =
     (case find (\<lambda>f. rss_url f = url) (feeds w) of
        Some existing \<Rightarrow> (w, Inl (HTTPException 400 ''Feed with this URL already exists''))
      | None \<Rightarrow>
          (case extract_feed_metadata env url of
             None \<Rightarrow>
               (w, Inl (HTTPException 400 ''Could not parse RSS feed. Please check the URL.''))
           | Some metadata \<Rightarrow>
               let feed = \<lparr>fd_id = feed_seq w + 1, fd_title = md_title metadata @ '' (Purified)'',
                           rss_url = url, auto_process = False,
                           fd_created_at = utcnow env, fd_updated_at = utcnow env\<rparr>;
                   w1 = w\<lparr>feeds := feeds w @ [feed], feed_seq := feed_seq w + 1\<rparr>
               in (case ingest_feed env (fd_id feed) w1 of
                     Inr (w2, new_episodes) \<Rightarrow> (w2, Inr feed)
                   | Inl e \<Rightarrow> (w1, Inr feed))))"

definition update_feed_auto_process :: "Env \<Rightarrow> int \<Rightarrow> bool \<Rightarrow> World \<Rightarrow> World \<times> (error + Feed)" where
  "update_feed_auto_process env fid flag w =
     (case get_feed (feeds w) fid of
        None \<Rightarrow> (w, Inl (HTTPException 404 (''Feed '' @ str_int fid @ '' not found'')))
      | Some feed \<Rightarrow>
          let feed' = feed\<lparr>auto_process := flag, fd_updated_at := utcnow env\<rparr>
          in (w\<lparr>feeds := map (\<lambda>f. if fd_id f = fid then feed' else f) (feeds w)\<rparr>, Inr feed'))"

definition delete_feed :: "int \<Rightarrow> World \<Rightarrow> World \<times> (error + nat)" where
  "delete_feed fid w =
     (case get_feed (feeds w) fid of
        None \<Rightarrow> (w, Inl (HTTPException 404 (''Feed '' @ str_int fid @ '' not found'')))
      | Some feed \<Rightarrow>
          let doomed = filter (\<lambda>e. feed_id e = fid) (episodes w);
              episode_count = length doomed
          in (w\<lparr>episodes := filter (\<lambda>e. feed_id e \<noteq> fid) (episodes w),
                feeds := filter (\<lambda>f. fd_id f \<noteq> fid) (feeds w)\<rparr>,
              Inr episode_count))"

definition trigger_ingest :: "Env \<Rightarrow> int \<Rightarrow> World \<Rightarrow> World \<times> (error + Episode list)" where
  "trigger_ingest env fid w =
     (case get_feed (feeds w) fid of
        None \<Rightarrow> (w, Inl (HTTPException 404 (''Feed '' @ str_int fid @ '' not found'')))
      | Some feed \<Rightarrow>
          (case ingest_feed env fid w of
             Inl e \<Rightarrow> (w, Inl e)
           | Inr (w', new_episodes) \<Rightarrow> (w', Inr new_episodes)))"

section \<open>Feed publisher: get_feed_rss\<close>

text \<open>The default of the \<^verbatim>\<open>PUBLIC_HOSTNAME\<close> environment variable (manager/src/config.py).\<close>

definition PUBLIC_HOSTNAME :: string where
  "PUBLIC_HOSTNAME = ''localhost''"

text \<open>
  The document as data: the channel elements and one entry per \<^verbatim>\<open>item\<close> element. The two
  dates are kept as instants; their \<^verbatim>\<open>strftime\<close> rendering and the XML serialisation
  are not modelled.
\<close>

record rss_enclosure =
  enc_url :: string
  enc_type :: string
  enc_length :: string

record rss_item =
  it_title :: string
  it_guid :: string
  it_pubDate :: datetime
  it_enclosure :: rss_enclosure

record rss_document =
  ch_title :: string
  ch_link :: string
  ch_description :: string
  ch_lastBuildDate :: datetime
  ch_items :: "rss_item list"

text \<open>
  The select: rows of the feed with status CLEANED, \<^verbatim>\<open>ORDER BY created_at DESC\<close> (a stable
  sort of the table here; SQL leaves the order of rows with equal keys open).
\<close>

definition select_cleaned :: "int \<Rightarrow> Episode list \<Rightarrow> Episode list" where
  "select_cleaned fid tbl =
     sort_key (\<lambda>e. - created_at e) (filter (\<lambda>e. feed_id e = fid \<and> status e = CLEANED) tbl)"

definition make_item :: "Episode \<Rightarrow> rss_item" where
  "make_item episode =
     \<lparr>it_title = title episode, it_guid = guid episode, it_pubDate = updated_at episode,
      it_enclosure =
        \<lparr>enc_url = ''https://'' @ PUBLIC_HOSTNAME @ ''/files/'' @ the (local_filename episode),
         enc_type = ''audio/mpeg'', enc_length = ''0''\<rparr>\<rparr>"

fun rss_items :: "Episode list \<Rightarrow> rss_item list" where
  "rss_items [] = []"
| "rss_items (episode # rest) =
     (if \<not> truthy (local_filename episode) then rss_items rest
      else make_item episode # rss_items rest)"

definition get_feed_rss :: "Env \<Rightarrow> int \<Rightarrow> World \<Rightarrow> error + rss_document" where
  "get_feed_rss env fid w =
     (case get_feed (feeds w) fid of
        None \<Rightarrow> Inl (HTTPException 404 (''Feed '' @ str_int fid @ '' not found''))
      | Some feed \<Rightarrow>
          Inr \<lparr>ch_title = fd_title feed,
               ch_link = ''https://'' @ PUBLIC_HOSTNAME @ ''/feed/'' @ str_int fid,
               ch_description = ''Ad-free version of '' @ fd_title feed,
               ch_lastBuildDate = utcnow env,
               ch_items = rss_items (select_cleaned fid (episodes w))\<rparr>)"

section \<open>The coordinator as a state machine\<close>

datatype request =
    Connect nat
  | Disconnect nat
  | UpdateProgress int int string
  | UploadCleanedAudio int UploadFile
  | CreateFeed string
  | UpdateFeedAutoProcess int bool
  | DeleteFeed int
  | TriggerIngest int
  | IgnoreEpisodes "int list"
  | UnignoreEpisodes "int list"
  | QueueEpisodes "int list"

text \<open>The world a request leaves behind, whatever it answered.\<close>

fun handle_request :: "Env \<Rightarrow> request \<Rightarrow> World \<Rightarrow> World" where
  "handle_request env (Connect c) w = connect c w"
| "handle_request env (Disconnect c) w = disconnect c w"
| "handle_request env (UpdateProgress i p s) w = fst (update_progress env i p s w)"
| "handle_request env (UploadCleanedAudio i f) w = fst (upload_cleaned_audio env i f w)"
| "handle_request env (CreateFeed url) w = fst (create_feed env url w)"
| "handle_request env (UpdateFeedAutoProcess i b) w = fst (update_feed_auto_process env i b w)"
| "handle_request env (DeleteFeed i) w = fst (delete_feed i w)"
| "handle_request env (TriggerIngest i) w = fst (trigger_ingest env i w)"
| "handle_request env (IgnoreEpisodes ids) w = fst (ignore_episodes env ids w)"
| "handle_request env (UnignoreEpisodes ids) w = fst (unignore_episodes env ids w)"
| "handle_request env (QueueEpisodes ids) w = fst (queue_episodes env ids w)"

inductive reachable :: "World \<Rightarrow> bool" where
  start: "reachable init_world"
| step: "reachable w \<Longrightarrow> reachable (handle_request env req w)"

text \<open>The artifact invariant of the data model, for one table.\<close>

definition artifact_inv :: "Episode list \<Rightarrow> bool" where
  "artifact_inv tbl \<longleftrightarrow> (\<forall>e \<in> set tbl. (local_filename e \<noteq> None) = (status e = CLEANED))"

section \<open>Executor task runner (worker/main.py)\<close>

text \<open>
  The two except clauses tell \<^verbatim>\<open>requests.RequestException\<close> from any other Exception.
  One execution of the task body meets at most one exception, in its download step
  (\<^verbatim>\<open>requests.get\<close>, \<^verbatim>\<open>raise_for_status\<close>, writing the temporary file) or in its upload step
  (\<^verbatim>\<open>requests.post\<close>, \<^verbatim>\<open>raise_for_status\<close>, \<^verbatim>\<open>json\<close>); \<^verbatim>\<open>report_progress\<close> swallows its own
  failures and never raises.
\<close>

datatype exn = RequestException | OtherException

record attempt =
  download :: "exn option"
  upload :: "exn option"

datatype task_result = SUCCESS | RETRY nat | FAILURE exn

text \<open>
  Celery's \<^verbatim>\<open>Task.retry(exc, countdown, max_retries)\<close>, called by an execution whose
  \<^verbatim>\<open>request.retries\<close> is \<open>retries\<close>: when \<open>retries + 1\<close> exceeds \<open>max_retries\<close> it re-raises
  \<open>exc\<close> and the task has failed; otherwise the task is sent again, to run after
  \<open>countdown\<close> seconds with \<^verbatim>\<open>request.retries\<close> one higher. Celery is a library outside the
  repository; this is its documented behaviour.
\<close>

definition self_retry :: "nat \<Rightarrow> exn \<Rightarrow> nat \<Rightarrow> nat \<Rightarrow> task_result" where
  "self_retry retries exc countdown max_retries =
     (if retries + 1 > max_retries then FAILURE exc else RETRY countdown)"

text \<open>
  \<^verbatim>\<open>report_progress\<close> posts to the manager's \<^verbatim>\<open>/progress/{episode_id}\<close> with the parameters
  \<open>progress\<close> and \<open>stage\<close>; the model records the event that the call carries.
\<close>

definition report_progress :: "int \<Rightarrow> int \<Rightarrow> string \<Rightarrow> progress_event" where
  "report_progress episode_id prog stg = \<lparr>ev_episode_id = episode_id, progress = prog, stage = stg\<rparr>"

definition on_exception :: "nat \<Rightarrow> int \<Rightarrow> exn \<Rightarrow> progress_event list \<times> task_result" where
  "on_exception retries episode_id e =
     (case e of
        RequestException \<Rightarrow>
          ([report_progress episode_id 0 ''failed''], self_retry retries e 60 3)
      | OtherException \<Rightarrow> ([report_progress episode_id 0 ''failed''], FAILURE e))"

text \<open>One execution of \<^verbatim>\<open>process_episode\<close>: the progress reports it makes, in order, and how it ends.\<close>

definition process_episode :: "nat \<Rightarrow> attempt \<Rightarrow> int \<Rightarrow> progress_event list \<times> task_result" where
  "process_episode retries a episode_id =
     (let ev1 = [report_progress episode_id 10 ''downloading''] in
      case download a of
        Some e \<Rightarrow> (case on_exception retries episode_id e of (evs, r) \<Rightarrow> (ev1 @ evs, r))
      | None \<Rightarrow>
          let ev2 = ev1 @ [report_progress episode_id 30 ''downloaded'',
                           report_progress episode_id 50 ''processing'',
                           report_progress episode_id 80 ''processing'',
                           report_progress episode_id 90 ''uploading''] in
          (case upload a of
             Some e \<Rightarrow> (case on_exception retries episode_id e of (evs, r) \<Rightarrow> (ev2 @ evs, r))
           | None \<Rightarrow> (ev2 @ [report_progress episode_id 100 ''completed''], SUCCESS)))"

text \<open>
  The worker runs the task and every retry Celery schedules; \<open>script k\<close> is what the
  outside does to the execution whose \<^verbatim>\<open>request.retries\<close> is \<open>k\<close>. The result lists the
  executions in order.
\<close>

function run_task :: "(nat \<Rightarrow> attempt) \<Rightarrow> int \<Rightarrow> nat \<Rightarrow> (progress_event list \<times> task_result) list" where
  "run_task script episode_id retries =
     (case process_episode retries (script retries) episode_id of
        (evs, r) \<Rightarrow>
          (case r of
             RETRY countdown \<Rightarrow> (evs, r) # run_task script episode_id (retries + 1)
           | SUCCESS \<Rightarrow> [(evs, r)]
           | FAILURE e \<Rightarrow> [(evs, r)]))"
  by pat_completeness auto
termination
  by (relation "measure (\<lambda>(script, episode_id, retries). 3 - retries)")
    (auto simp: process_episode_def on_exception_def self_retry_def Let_def
      split: option.splits exn.splits if_splits)

declare run_task.simps [simp del]

section \<open>Concrete inputs\<close>

text \<open>
  An environment in which websocket 2 is broken, no call reaches the broker, storage
  works, no source document can be fetched and the connection set is left alone during
  sends.
\<close>

definition env0 :: Env where
  "env0 = \<lparr>utcnow = 100, storage_ok = True, send_ok = (\<lambda>c. c \<noteq> 2),
            during_send = (\<lambda>c. []), broker_up = (\<lambda>i. False),
            new_task_id = (\<lambda>n. ''task''), extract_feed_metadata = (\<lambda>u. None),
            fetch_feed = (\<lambda>u. Inl FeedUnreachable)\<rparr>"

text \<open>
  A publish is undisturbed when nothing happens to the connection set while the sends to
  its subscribers are awaited.
\<close>

definition quiet :: "Env \<Rightarrow> World \<Rightarrow> bool" where
  "quiet env w \<longleftrightarrow> (\<forall>c \<in> set (active_connections w). during_send env c = [])"

text \<open>As \<open>env0\<close>, but the dispatch for episode 1 reaches the broker.\<close>

definition env_partial :: Env where
  "env_partial = env0\<lparr>broker_up := (\<lambda>i. i = 1)\<rparr>"

text \<open>As \<open>env0\<close>, but websocket 4 connects while the send to websocket 1 is awaited.\<close>

definition env_busy :: Env where
  "env_busy = env0\<lparr>during_send := (\<lambda>c. if c = 1 then [Connected 4] else [])\<rparr>"

text \<open>One feed with three episodes: a is DISCOVERED, b is FAILED, c is QUEUED.\<close>

definition feed_1 :: Feed where
  "feed_1 = \<lparr>fd_id = 1, fd_title = ''Show (Purified)'', rss_url = ''http://show/rss'',
             auto_process = False, fd_created_at = 5, fd_updated_at = 5\<rparr>"

definition episode_a :: Episode where
  "episode_a = \<lparr>ep_id = 1, feed_id = 1, guid = ''a'', status = DISCOVERED, title = ''A'',
                audio_url = ''http://show/a.mp3'', local_filename = None,
                created_at = 10, updated_at = 10\<rparr>"

definition episode_b :: Episode where
  "episode_b = \<lparr>ep_id = 2, feed_id = 1, guid = ''b'', status = FAILED, title = ''B'',
                audio_url = ''http://show/b.mp3'', local_filename = None,
                created_at = 11, updated_at = 11\<rparr>"

definition episode_c :: Episode where
  "episode_c = \<lparr>ep_id = 3, feed_id = 1, guid = ''c'', status = QUEUED, title = ''C'',
                audio_url = ''http://show/c.mp3'', local_filename = None,
                created_at = 12, updated_at = 12\<rparr>"

definition world_abc :: World where
  "world_abc = \<lparr>feeds = [feed_1], episodes = [episode_a, episode_b, episode_c], feed_seq = 1,
                episode_seq = 3, files = [], broker = [], active_connections = [1, 2, 3],
                sent = []\<rparr>"

text \<open>Two uploads for episode c: an MP3 name with a text media type, and a text name with the MP3 media type.\<close>

definition upload_txt :: UploadFile where
  "upload_txt = \<lparr>filename = Some ''a.mp3'', content_type = Some ''text/plain'', content = ''hello''\<rparr>"

definition upload_badname :: UploadFile where
  "upload_badname = \<lparr>filename = Some ''a.txt'', content_type = Some ''audio/mpeg'', content = ''hello''\<rparr>"


text \<open>
  Shorthands for statements about \<open>upload_cleaned_audio\<close>: its one check on the file
  (\<^verbatim>\<open>not file.filename or not file.filename.endswith(".mp3")\<close>, negated) and the row it
  writes.
\<close>

definition mp3_name :: "UploadFile \<Rightarrow> bool" where
  "mp3_name file \<longleftrightarrow> truthy (filename file) \<and> endswith (the (filename file)) ''.mp3''"

definition cleaned_row :: "Env \<Rightarrow> int \<Rightarrow> UploadFile \<Rightarrow> Episode \<Rightarrow> Episode" where
  "cleaned_row env episode_id file episode =
     episode\<lparr>local_filename :=
               Some (str_int (feed_id episode) @ ''/'' @ str_int episode_id @ ''_'' @
                     replace_slash (the (filename file))),
             status := CLEANED, updated_at := utcnow env\<rparr>"

text \<open>The row \<^verbatim>\<open>queue_episodes\<close> writes for an episode it queues.\<close>

definition queued_row :: "Env \<Rightarrow> Episode \<Rightarrow> Episode" where
  "queued_row env episode = episode\<lparr>status := QUEUED, updated_at := utcnow env\<rparr>"

text \<open>The upload the worker makes for episode 1 (worker/main.py names it so).\<close>

definition upload_mp3 :: UploadFile where
  "upload_mp3 = \<lparr>filename = Some ''episode_1_cleaned.mp3'', content_type = Some ''audio/mpeg'',
                 content = ''audio''\<rparr>"

text \<open>
  An environment in which everything works and the source document lists the items a, b
  and c; and the run of the spec's scenario in it: create the feed (which ingests), queue
  episode 1, deliver its cleaned audio.
\<close>

definition env1 :: Env where
  "env1 = \<lparr>utcnow = 200, storage_ok = True, send_ok = (\<lambda>c. True),
            during_send = (\<lambda>c. []), broker_up = (\<lambda>i. True),
            new_task_id = (\<lambda>n. ''task-'' @ str_int (int n)),
            extract_feed_metadata = (\<lambda>u. Some \<lparr>md_title = ''Show'', md_description = None,
                                                md_image_url = None, md_author = None\<rparr>),
            fetch_feed = (\<lambda>u. Inr [\<lparr>item_guid = Some ''a'', item_title = ''A'', item_audio_url = ''http://show/a.mp3''\<rparr>,
                                     \<lparr>item_guid = Some ''b'', item_title = ''B'', item_audio_url = ''http://show/b.mp3''\<rparr>,
                                     \<lparr>item_guid = Some ''c'', item_title = ''C'', item_audio_url = ''http://show/c.mp3''\<rparr>])\<rparr>"

definition scenario :: World where
  "scenario =
     handle_request env1 (UploadCleanedAudio 1 upload_mp3)
       (handle_request env1 (QueueEpisodes [1])
          (handle_request env1 (CreateFeed ''http://show/rss'') init_world))"

text \<open>
  The Feed row \<^verbatim>\<open>create_feed\<close> builds, and an environment in which the metadata of a
  source document can be read but fetching its items fails.
\<close>

definition new_feed_row :: "Env \<Rightarrow> string \<Rightarrow> FeedMetadata \<Rightarrow> World \<Rightarrow> Feed" where
  "new_feed_row env url metadata w =
     \<lparr>fd_id = feed_seq w + 1, fd_title = md_title metadata @ '' (Purified)'', rss_url = url,
      auto_process = False, fd_created_at = utcnow env, fd_updated_at = utcnow env\<rparr>"

definition env_unreachable :: Env where
  "env_unreachable =
     env0\<lparr>extract_feed_metadata :=
            (\<lambda>u. Some \<lparr>md_title = ''Show'', md_description = None, md_image_url = None,
                        md_author = None\<rparr>)\<rparr>"

text \<open>
  A table for the publisher: feed 1 has two CLEANED episodes with a file (created at 10
  and 20), one CLEANED episode without a file and the QUEUED episode c; episode 5 is
  CLEANED with a file and belongs to feed 2.
\<close>

definition cleaned_episode :: "int \<Rightarrow> int \<Rightarrow> string option \<Rightarrow> datetime \<Rightarrow> Episode" where
  "cleaned_episode i fid path t =
     \<lparr>ep_id = i, feed_id = fid, guid = ''g'' @ str_int i, status = CLEANED,
      title = ''T'' @ str_int i, audio_url = ''http://show/'' @ str_int i @ ''.mp3'',
      local_filename = path, created_at = t, updated_at = t + 1\<rparr>"

definition world_rss :: World where
  "world_rss =
     world_abc\<lparr>episodes :=
       [cleaned_episode 1 1 (Some ''1/1_x.mp3'') 10, cleaned_episode 2 1 (Some ''1/2_x.mp3'') 20,
        cleaned_episode 3 1 None 30, episode_c, cleaned_episode 5 2 (Some ''2/5_x.mp3'') 40]\<rparr>"

text \<open>
  The episodes the document is to carry: of this feed, CLEANED, and with an artifact path
  that \<^verbatim>\<open>if not episode.local_filename\<close> lets through (not None and not empty).
\<close>

definition publishable :: "int \<Rightarrow> Episode \<Rightarrow> bool" where
  "publishable fid e \<longleftrightarrow> feed_id e = fid \<and> status e = CLEANED \<and> truthy (local_filename e)"

text \<open>
  The exception one execution of the task body meets, if any (the download step comes
  first), and three scripts for the outside: the download always fails on the network;
  the upload fails on the network twice, then all is well; the download always fails
  with an error that is not a network error.
\<close>

definition attempt_error :: "attempt \<Rightarrow> exn option" where
  "attempt_error a = (case download a of Some e \<Rightarrow> Some e | None \<Rightarrow> upload a)"

definition net_fail :: "nat \<Rightarrow> attempt" where
  "net_fail k = \<lparr>download = Some RequestException, upload = None\<rparr>"

definition flaky :: "nat \<Rightarrow> attempt" where
  "flaky k = (if k < 2 then \<lparr>download = None, upload = Some RequestException\<rparr>
              else \<lparr>download = None, upload = None\<rparr>)"

definition broken :: "nat \<Rightarrow> attempt" where
  "broken k = \<lparr>download = Some OtherException, upload = None\<rparr>"

section \<open>Progress broadcaster\<close>

lemma conn_step_frame:
  "episodes (conn_step ev w) = episodes w \<and> feeds (conn_step ev w) = feeds w \<and>
   files (conn_step ev w) = files w \<and> broker (conn_step ev w) = broker w \<and>
   feed_seq (conn_step ev w) = feed_seq w \<and> episode_seq (conn_step ev w) = episode_seq w \<and>
   sent (conn_step ev w) = sent w"
  by (cases ev) (simp_all add: connect_def disconnect_def)

lemma fold_conn_step_frame:
  "episodes (fold conn_step evs w) = episodes w \<and> feeds (fold conn_step evs w) = feeds w \<and>
   files (fold conn_step evs w) = files w \<and> broker (fold conn_step evs w) = broker w \<and>
   feed_seq (fold conn_step evs w) = feed_seq w \<and>
   episode_seq (fold conn_step evs w) = episode_seq w \<and>
   sent (fold conn_step evs w) = sent w"
  by (induction evs arbitrary: w) (simp_all add: conn_step_frame)

lemma broadcast_loop_frame:
  "episodes (fst (broadcast_loop env m used cs d w)) = episodes w \<and>
   feeds (fst (broadcast_loop env m used cs d w)) = feeds w \<and>
   files (fst (broadcast_loop env m used cs d w)) = files w \<and>
   broker (fst (broadcast_loop env m used cs d w)) = broker w \<and>
   feed_seq (fst (broadcast_loop env m used cs d w)) = feed_seq w \<and>
   episode_seq (fst (broadcast_loop env m used cs d w)) = episode_seq w"
  by (induction cs arbitrary: d w) (simp_all add: fold_conn_step_frame)

lemma broadcast_frame:
  "episodes (fst (broadcast env m w)) = episodes w" "feeds (fst (broadcast env m w)) = feeds w"
  "files (fst (broadcast env m w)) = files w" "broker (fst (broadcast env m w)) = broker w"
  "feed_seq (fst (broadcast env m w)) = feed_seq w"
  "episode_seq (fst (broadcast env m w)) = episode_seq w"
  by (simp_all add: broadcast_def broadcast_loop_frame)

lemma update_progress_fst:
  "fst (update_progress env i p s w) =
   fst (broadcast env \<lparr>ev_episode_id = i, progress = p, stage = s\<rparr> w)"
  by (simp add: update_progress_def split: prod.splits option.splits)

lemma broadcast_loop_quiet:
  "\<forall>c \<in> set cs. during_send env c = [] \<Longrightarrow> length (active_connections w) = used \<Longrightarrow>
   snd (broadcast_loop env m used cs d w) = None \<and>
   active_connections (fst (broadcast_loop env m used cs d w)) =
     filter (\<lambda>c. c \<notin> set d \<and> (c \<in> set cs \<longrightarrow> send_ok env c)) (active_connections w) \<and>
   sent (fst (broadcast_loop env m used cs d w)) =
     sent w @ map (\<lambda>c. (c, m)) (filter (send_ok env) cs)"
proof (induction cs arbitrary: d w)
  case Nil
  then show ?case by simp
next
  case (Cons c cs)
  show ?case
  proof (cases "send_ok env c")
    case True
    with Cons.prems
      Cons.IH [of "w\<lparr>sent := sent w @ [(c, m)]\<rparr>" d]
    show ?thesis by (auto intro: filter_cong)
  next
    case False
    with Cons.prems Cons.IH [of w "c # d"]
    show ?thesis by (auto intro: filter_cong)
  qed
qed

lemma broadcast_quiet:
  assumes "quiet env w"
  shows "snd (broadcast env m w) = None"
    and "active_connections (fst (broadcast env m w)) = filter (send_ok env) (active_connections w)"
    and "sent (fst (broadcast env m w)) =
           sent w @ map (\<lambda>c. (c, m)) (filter (send_ok env) (active_connections w))"
  using assms broadcast_loop_quiet [of "active_connections w" env w "length (active_connections w)" m "[]"]
  by (auto simp: broadcast_def quiet_def intro: filter_cong)

text \<open>
  A publish during which no websocket connects or disconnects: the publisher is answered
  ok whatever the sends do, the subscribed set afterwards is the old one without exactly
  the websockets whose send failed, and the log grows by exactly one copy of the event
  for every subscribed websocket whose send works, in the order of iteration.
\<close>

lemma update_progress_undisturbed:
  assumes "quiet env w"
  shows "snd (update_progress env i p s w) = Inr ''ok'' \<and>
         active_connections (fst (update_progress env i p s w)) =
           filter (send_ok env) (active_connections w) \<and>
         sent (fst (update_progress env i p s w)) =
           sent w @ map (\<lambda>c. (c, \<lparr>ev_episode_id = i, progress = p, stage = s\<rparr>))
                      (filter (send_ok env) (active_connections w))"
  using broadcast_quiet [OF assms, of "\<lparr>ev_episode_id = i, progress = p, stage = s\<rparr>"]
  by (cases "broadcast env \<lparr>ev_episode_id = i, progress = p, stage = s\<rparr> w")
     (auto simp: update_progress_def)

text \<open>
  C9. The loop catches every exception of a send and removes the failed websockets only
  after it, so a failed send by itself costs nobody else the event: with websockets 2, 1
  and 3 subscribed and the send to 2 failing, 1 and 3 are sent the event, 2 is removed
  and the publisher is answered ok. But the loop iterates the live set across the awaited
  sends. When websocket 4 connects while the send to 1 is awaited, the same publish
  raises RuntimeError to the publisher; the failed websocket 2 is still subscribed, and
  websocket 3, whose send would work, was sent nothing.
\<close>

theorem broadcast_raises_when_set_changes:
  "\<not> send_ok env0 2 \<and> send_ok env0 1 \<and> send_ok env0 3 \<and>
   update_progress env0 7 50 ''processing'' (init_world\<lparr>active_connections := [2, 1, 3]\<rparr>) =
     (init_world\<lparr>active_connections := [1, 3],
                 sent := [(1, \<lparr>ev_episode_id = 7, progress = 50, stage = ''processing''\<rparr>),
                          (3, \<lparr>ev_episode_id = 7, progress = 50, stage = ''processing''\<rparr>)]\<rparr>,
      Inr ''ok'') \<and>
   send_ok env_busy = send_ok env0 \<and> during_send env_busy 1 = [Connected 4] \<and>
   update_progress env_busy 7 50 ''processing'' (init_world\<lparr>active_connections := [2, 1, 3]\<rparr>) =
     (init_world\<lparr>active_connections := [2, 1, 3, 4],
                 sent := [(1, \<lparr>ev_episode_id = 7, progress = 50, stage = ''processing''\<rparr>)]\<rparr>,
      Inl (RuntimeError ''Set changed size during iteration''))"
  by (simp add: update_progress_def broadcast_def env_busy_def env0_def init_world_def
      connect_def set_changed_size_def)

section \<open>Ignore and un-ignore\<close>

lemma getattr_IGNORED: "EpisodeStatus_getattr ''IGNORED'' = Inl (AttributeError ''IGNORED'')"
  by (simp add: EpisodeStatus_getattr_def EpisodeStatus_members_def)

lemma ignore_loop_Inr:
  "ignore_loop env ids (tbl, n) = Inr (tbl', n') \<Longrightarrow> tbl' = tbl \<and> n' = n"
  by (induction ids) (auto simp: getattr_IGNORED split: option.splits if_splits)

lemma unignore_loop_Inr:
  "unignore_loop env ids (tbl, n) = Inr (tbl', n') \<Longrightarrow> tbl' = tbl \<and> n' = n"
  by (induction ids) (auto simp: getattr_IGNORED split: option.splits if_splits)

lemma ignore_episodes_fst: "fst (ignore_episodes env ids w) = w"
  by (auto simp: ignore_episodes_def split: sum.splits dest: ignore_loop_Inr)

lemma unignore_episodes_fst: "fst (unignore_episodes env ids w) = w"
  by (auto simp: unignore_episodes_def split: sum.splits dest: unignore_loop_Inr)

text \<open>
  C2. Ignore is to move a DISCOVERED or FAILED episode to IGNORED and un-ignore is to
  move an IGNORED episode back to DISCOVERED. The code does neither: EpisodeStatus has no
  member IGNORED, so ignoring the DISCOVERED episode a raises AttributeError before the
  commit, un-ignoring any existing episode raises the same in its comparison, and no
  ignore or un-ignore request ever changes the world.
\<close>

theorem ignore_raises_AttributeError:
  "ignore_episodes env0 [1] world_abc = (world_abc, Inl (AttributeError ''IGNORED'')) \<and>
   unignore_episodes env0 [1] world_abc = (world_abc, Inl (AttributeError ''IGNORED'')) \<and>
   session_get (episodes world_abc) 1 = Some episode_a \<and> status episode_a = DISCOVERED \<and>
   fst (ignore_episodes env ids w) = w \<and> fst (unignore_episodes env ids w) = w"
proof -
  have "ignore_episodes env0 [1] world_abc = (world_abc, Inl (AttributeError ''IGNORED''))"
    by (simp add: ignore_episodes_def world_abc_def session_get_def episode_a_def getattr_IGNORED)
  moreover
  have "unignore_episodes env0 [1] world_abc = (world_abc, Inl (AttributeError ''IGNORED''))"
    by (simp add: unignore_episodes_def world_abc_def session_get_def episode_a_def getattr_IGNORED)
  moreover
  have "session_get (episodes world_abc) 1 = Some episode_a \<and> status episode_a = DISCOVERED"
    by (simp add: world_abc_def session_get_def episode_a_def)
  ultimately show ?thesis
    by (simp add: ignore_episodes_fst unignore_episodes_fst)
qed

section \<open>Callback resolver\<close>

lemma str_int_simps: "str_int 1 = ''1''" "str_int 2 = ''2''" "str_int 3 = ''3''"
  by (simp_all add: str_int_def str_nat.simps digit_char_def)

lemma upload_not_found:
  "session_get (episodes w) episode_id = None \<Longrightarrow>
   upload_cleaned_audio env episode_id file w =
     (w, Inl (HTTPException 404 (''Episode '' @ str_int episode_id @ '' not found'')))"
  by (simp add: upload_cleaned_audio_def)

lemma upload_bad_name:
  "session_get (episodes w) episode_id = Some episode \<Longrightarrow> \<not> mp3_name file \<Longrightarrow>
   upload_cleaned_audio env episode_id file w =
     (w, Inl (HTTPException 400 ''Only MP3 files are accepted''))"
  by (simp add: upload_cleaned_audio_def mp3_name_def)

lemma upload_storage_failure:
  "session_get (episodes w) episode_id = Some episode \<Longrightarrow> mp3_name file \<Longrightarrow>
   \<not> storage_ok env \<Longrightarrow>
   upload_cleaned_audio env episode_id file w = (w, Inl (HTTPException 500 ''Failed to save file''))"
  by (simp add: upload_cleaned_audio_def mp3_name_def Let_def)

lemma upload_success_fst:
  "session_get (episodes w) episode_id = Some episode \<Longrightarrow> mp3_name file \<Longrightarrow> storage_ok env \<Longrightarrow>
   fst (upload_cleaned_audio env episode_id file w) =
     fst (broadcast env \<lparr>ev_episode_id = episode_id, progress = 100, stage = ''completed''\<rparr>
        (w\<lparr>files := AList.update (the (local_filename (cleaned_row env episode_id file episode)))
                      (content file) (files w),
           episodes := session_add (cleaned_row env episode_id file episode) (episodes w)\<rparr>))"
  by (simp add: upload_cleaned_audio_def mp3_name_def Let_def cleaned_row_def
      split: prod.splits option.splits)

lemma upload_success_snd:
  "session_get (episodes w) episode_id = Some episode \<Longrightarrow> mp3_name file \<Longrightarrow> storage_ok env \<Longrightarrow>
   snd (upload_cleaned_audio env episode_id file w) =
     (case snd (broadcast env \<lparr>ev_episode_id = episode_id, progress = 100, stage = ''completed''\<rparr>
        (w\<lparr>files := AList.update (the (local_filename (cleaned_row env episode_id file episode)))
                      (content file) (files w),
           episodes := session_add (cleaned_row env episode_id file episode) (episodes w)\<rparr>)) of
        Some e \<Rightarrow> Inl e
      | None \<Rightarrow> Inr \<lparr>up_message = ''File uploaded successfully'', up_episode_id = episode_id,
           up_local_filename = local_filename (cleaned_row env episode_id file episode)\<rparr>)"
  by (simp add: upload_cleaned_audio_def mp3_name_def Let_def cleaned_row_def
      split: prod.splits option.splits)

lemma upload_success:
  assumes "session_get (episodes w) episode_id = Some episode" "mp3_name file" "storage_ok env"
    and "quiet env w"
  shows "snd (upload_cleaned_audio env episode_id file w) =
     Inr \<lparr>up_message = ''File uploaded successfully'', up_episode_id = episode_id,
          up_local_filename = local_filename (cleaned_row env episode_id file episode)\<rparr>"
proof -
  let ?w1 = "w\<lparr>files := AList.update (the (local_filename (cleaned_row env episode_id file episode)))
                      (content file) (files w),
           episodes := session_add (cleaned_row env episode_id file episode) (episodes w)\<rparr>"
  have "quiet env ?w1"
    using assms(4) by (simp add: quiet_def)
  then have "snd (broadcast env \<lparr>ev_episode_id = episode_id, progress = 100, stage = ''completed''\<rparr> ?w1) = None"
    by (rule broadcast_quiet(1))
  with upload_success_snd [OF assms(1-3)] show ?thesis
    by simp
qed

lemma upload_content_type:
  "upload_cleaned_audio env episode_id (file\<lparr>content_type := ct\<rparr>) w =
   upload_cleaned_audio env episode_id file w"
  by (cases "session_get (episodes w) episode_id") (simp_all add: upload_cleaned_audio_def Let_def)

text \<open>
  C6, as stated, fails: the upload below has media type text/plain and is accepted, the
  episode becomes CLEANED and the file is stored.
\<close>

theorem upload_ignores_media_type_counterexample:
  "content_type upload_txt \<noteq> Some ''audio/mpeg'' \<and>
   snd (upload_cleaned_audio env0 3 upload_txt world_abc) =
     Inr \<lparr>up_message = ''File uploaded successfully'', up_episode_id = 3,
          up_local_filename = Some ''1/3_a.mp3''\<rparr> \<and>
   map status (episodes (fst (upload_cleaned_audio env0 3 upload_txt world_abc))) =
     [DISCOVERED, FAILED, CLEANED] \<and>
   files (fst (upload_cleaned_audio env0 3 upload_txt world_abc)) = [(''1/3_a.mp3'', ''hello'')]"
  by (simp add: upload_cleaned_audio_def upload_txt_def world_abc_def env0_def session_get_def
      session_add_def episode_a_def episode_b_def episode_c_def endswith_def replace_slash_def
      str_int_simps Let_def broadcast_def init_world_def)

text \<open>
  C6, amended. For an existing episode the callback accepts an upload only when its file
  name is non-empty and ends in .mp3; an upload failing this name check is rejected with
  400 and the world is unchanged; with such a name and working storage it is accepted
  when no websocket connects or disconnects while the completion event is broadcast; the
  media type is never examined (changing it changes nothing).
\<close>

theorem upload_name_check:
  assumes "session_get (episodes w) episode_id = Some episode"
  shows "((\<exists>r. snd (upload_cleaned_audio env episode_id file w) = Inr r) \<longrightarrow> mp3_name file) \<and>
         (\<not> mp3_name file \<longrightarrow>
            upload_cleaned_audio env episode_id file w =
              (w, Inl (HTTPException 400 ''Only MP3 files are accepted''))) \<and>
         (mp3_name file \<and> storage_ok env \<and> quiet env w \<longrightarrow>
            (\<exists>r. snd (upload_cleaned_audio env episode_id file w) = Inr r)) \<and>
         upload_cleaned_audio env episode_id (file\<lparr>content_type := ct\<rparr>) w =
           upload_cleaned_audio env episode_id file w"
proof (cases "mp3_name file")
  case False
  with assms show ?thesis
    by (simp add: upload_bad_name upload_content_type)
next
  case True
  show ?thesis
  proof (cases "storage_ok env")
    case True
    with assms \<open>mp3_name file\<close> show ?thesis
      by (simp add: upload_success upload_content_type)
  next
    case False
    with assms \<open>mp3_name file\<close> show ?thesis
      by (simp add: upload_storage_failure upload_content_type)
  qed
qed

theorem upload_name_check_witness:
  "session_get (episodes world_abc) 3 = Some episode_c \<and>
   \<not> mp3_name upload_badname \<and>
   upload_cleaned_audio env0 3 upload_badname world_abc =
     (world_abc, Inl (HTTPException 400 ''Only MP3 files are accepted'')) \<and>
   upload_cleaned_audio env0 3 (upload_txt\<lparr>content_type := Some ''audio/mpeg''\<rparr>) world_abc =
     upload_cleaned_audio env0 3 upload_txt world_abc"
proof -
  have g: "session_get (episodes world_abc) 3 = Some episode_c"
    by (simp add: world_abc_def session_get_def episode_a_def episode_b_def episode_c_def)
  have n: "\<not> mp3_name upload_badname"
    by (simp add: mp3_name_def upload_badname_def endswith_def)
  from upload_name_check [OF g, of env0 upload_badname] n
       upload_name_check [OF g, of env0 upload_txt "Some ''audio/mpeg''"] g
  show ?thesis by blast
qed

section \<open>The session and the queue loop\<close>

lemma session_get_Some: "session_get tbl i = Some e \<Longrightarrow> e \<in> set tbl \<and> ep_id e = i"
  by (auto simp: session_get_def find_Some_iff)

lemma session_get_None: "session_get tbl i = None \<Longrightarrow> e \<in> set tbl \<Longrightarrow> ep_id e \<noteq> i"
  by (auto simp: session_get_def find_None_iff)

lemma session_get_distinct:
  "distinct (map ep_id tbl) \<Longrightarrow> e \<in> set tbl \<Longrightarrow> session_get tbl (ep_id e) = Some e"
  unfolding session_get_def
  by (induction tbl) (auto simp: image_iff)

lemma session_add_ids: "map ep_id (session_add e tbl) = map ep_id tbl"
  by (simp add: session_add_def)

lemma session_add_distinct:
  assumes "distinct (map ep_id tbl)" and "session_get tbl i = Some e" and "ep_id (f e) = i"
  shows "session_add (f e) tbl = map (\<lambda>x. if ep_id x = i then f x else x) tbl"
proof -
  have "\<And>x. x \<in> set tbl \<Longrightarrow> ep_id x = i \<Longrightarrow> x = e"
    using assms(1,2) session_get_distinct by fastforce
  then show ?thesis
    using assms(3) by (auto simp: session_add_def)
qed

lemma queue_loop_table:
  "distinct (map ep_id tbl) \<Longrightarrow>
   fst (queue_loop env ids (tbl, q, n, ts)) =
     map (\<lambda>e. if ep_id e \<in> set ids \<and> status e \<in> {DISCOVERED, FAILED} then queued_row env e else e) tbl"
proof (induction ids arbitrary: tbl q n ts)
  case Nil
  then show ?case by simp
next
  case (Cons i ids)
  show ?case
  proof (cases "session_get tbl i")
    case None
    then have "\<And>e. e \<in> set tbl \<Longrightarrow> ep_id e \<noteq> i"
      by (rule session_get_None)
    with None Cons show ?thesis by auto
  next
    case (Some e)
    then have e: "e \<in> set tbl" "ep_id e = i" by (auto dest: session_get_Some)
    have only: "\<And>x. x \<in> set tbl \<Longrightarrow> ep_id x = i \<Longrightarrow> x = e"
      using Cons.prems Some session_get_distinct by fastforce
    show ?thesis
    proof (cases "status e \<in> {DISCOVERED, FAILED}")
      case False
      with Some Cons only show ?thesis by auto
    next
      case True
      let ?tbl' = "session_add (e\<lparr>status := QUEUED, updated_at := utcnow env\<rparr>) tbl"
      have t': "?tbl' = map (\<lambda>x. if ep_id x = i then queued_row env x else x) tbl"
        using session_add_distinct [OF Cons.prems Some, of "queued_row env"] e
        by (simp add: queued_row_def)
      have d': "distinct (map ep_id ?tbl')"
        using Cons.prems by (simp add: session_add_ids)
      have "fst (queue_loop env (i # ids) (tbl, q, n, ts)) =
            map (\<lambda>e. if ep_id e \<in> set ids \<and> status e \<in> {DISCOVERED, FAILED} then queued_row env e else e) ?tbl'"
        using Some True Cons.IH [OF d'] by (simp add: Let_def split: sum.splits prod.splits)
      also have "\<dots> = map (\<lambda>e. if ep_id e \<in> set (i # ids) \<and> status e \<in> {DISCOVERED, FAILED} then queued_row env e else e) tbl"
        unfolding t' using only True by (auto simp: queued_row_def)
      finally show ?thesis .
    qed
  qed
qed

lemma queue_loop_dispatched:
  "queue_loop env ids (tbl, q, n, ts) = (tbl', q', n', ts') \<Longrightarrow>
   \<exists>msgs new. q' = q @ msgs \<and> ts' = ts @ new \<and>
     (\<forall>m \<in> set msgs. broker_up env (fst (task_args m)) \<and>
        (\<exists>x \<in> set tbl. ep_id x = fst (task_args m) \<and> status x \<in> {DISCOVERED, FAILED})) \<and>
     (\<forall>p \<in> set new. broker_up env (fst p) \<and>
        (\<exists>x \<in> set tbl. ep_id x = fst p \<and> status x \<in> {DISCOVERED, FAILED}))"
proof (induction ids arbitrary: tbl q n ts)
  case Nil
  then show ?case by simp
next
  case (Cons i ids)
  show ?case
  proof (cases "session_get tbl i")
    case None
    with Cons.prems have "queue_loop env ids (tbl, q, n, ts) = (tbl', q', n', ts')"
      by simp
    then show ?thesis by (rule Cons.IH)
  next
    case (Some e)
    then have e: "e \<in> set tbl" "ep_id e = i" by (auto dest: session_get_Some)
    show ?thesis
    proof (cases "status e \<in> {DISCOVERED, FAILED}")
      case False
      with Some Cons.prems have "queue_loop env ids (tbl, q, n, ts) = (tbl', q', n', ts')"
        by simp
      then show ?thesis by (rule Cons.IH)
    next
      case True
      let ?tbl1 = "session_add (e\<lparr>status := QUEUED, updated_at := utcnow env\<rparr>) tbl"
      have old: "\<And>x. x \<in> set ?tbl1 \<Longrightarrow> status x \<in> {DISCOVERED, FAILED} \<Longrightarrow> x \<in> set tbl"
        by (auto simp: session_add_def split: if_splits)
      show ?thesis
      proof (cases "broker_up env i")
        case False
        with Some True Cons.prems
        have "queue_loop env ids (?tbl1, q, n + 1, ts) = (tbl', q', n', ts')"
          by (simp add: dispatch_episode_processing_def Let_def)
        from Cons.IH [OF this] obtain msgs new where
          r: "q' = q @ msgs" "ts' = ts @ new"
          "\<forall>m \<in> set msgs. broker_up env (fst (task_args m)) \<and>
             (\<exists>x \<in> set ?tbl1. ep_id x = fst (task_args m) \<and> status x \<in> {DISCOVERED, FAILED})"
          "\<forall>p \<in> set new. broker_up env (fst p) \<and>
             (\<exists>x \<in> set ?tbl1. ep_id x = fst p \<and> status x \<in> {DISCOVERED, FAILED})"
          by blast
        from r(3) old have 3: "\<forall>m \<in> set msgs. broker_up env (fst (task_args m)) \<and>
             (\<exists>x \<in> set tbl. ep_id x = fst (task_args m) \<and> status x \<in> {DISCOVERED, FAILED})"
          by blast
        from r(4) old have 4: "\<forall>p \<in> set new. broker_up env (fst p) \<and>
             (\<exists>x \<in> set tbl. ep_id x = fst p \<and> status x \<in> {DISCOVERED, FAILED})"
          by blast
        from r(1,2) 3 4 show ?thesis by blast
      next
        case up: True
        let ?m = "\<lparr>task_name = ''worker.process_episode'',
                    task_args = (i, audio_url e, MANAGER_BASE_URL @ ''/upload/'' @ str_int i),
                    task_queue = ''audio_processing''\<rparr>"
        let ?t = "(i, new_task_id env (length q))"
        from up Some True Cons.prems
        have "queue_loop env ids (?tbl1, q @ [?m], n + 1, ts @ [?t]) = (tbl', q', n', ts')"
          by (simp add: dispatch_episode_processing_def Let_def)
        from Cons.IH [OF this] obtain msgs new where
          r: "q' = (q @ [?m]) @ msgs" "ts' = (ts @ [?t]) @ new"
          "\<forall>m \<in> set msgs. broker_up env (fst (task_args m)) \<and>
             (\<exists>x \<in> set ?tbl1. ep_id x = fst (task_args m) \<and> status x \<in> {DISCOVERED, FAILED})"
          "\<forall>p \<in> set new. broker_up env (fst p) \<and>
             (\<exists>x \<in> set ?tbl1. ep_id x = fst p \<and> status x \<in> {DISCOVERED, FAILED})"
          by blast
        from r(3) old have 3: "\<forall>m \<in> set msgs. broker_up env (fst (task_args m)) \<and>
             (\<exists>x \<in> set tbl. ep_id x = fst (task_args m) \<and> status x \<in> {DISCOVERED, FAILED})"
          by blast
        from r(4) old have 4: "\<forall>p \<in> set new. broker_up env (fst p) \<and>
             (\<exists>x \<in> set tbl. ep_id x = fst p \<and> status x \<in> {DISCOVERED, FAILED})"
          by blast
        have 5: "\<forall>m \<in> set (?m # msgs). broker_up env (fst (task_args m)) \<and>
             (\<exists>x \<in> set tbl. ep_id x = fst (task_args m) \<and> status x \<in> {DISCOVERED, FAILED})"
          using 3 up e True by auto
        have 6: "\<forall>p \<in> set (?t # new). broker_up env (fst p) \<and>
             (\<exists>x \<in> set tbl. ep_id x = fst p \<and> status x \<in> {DISCOVERED, FAILED})"
          using 4 up e True by auto
        have "q' = q @ (?m # msgs)" "ts' = ts @ (?t # new)"
          using r(1,2) by simp_all
        with 5 6 show ?thesis by blast
      qed
    qed
  qed
qed

lemma filter_one_row:
  "distinct (map ep_id tbl) \<Longrightarrow> e \<in> set tbl \<Longrightarrow> S e \<Longrightarrow>
   length (filter (\<lambda>x. ep_id x = ep_id e \<and> S x) tbl) = 1"
proof (induction tbl)
  case Nil
  then show ?case by simp
next
  case (Cons a tbl)
  show ?case
  proof (cases "a = e")
    case True
    have "filter (\<lambda>x. ep_id x = ep_id e \<and> S x) tbl = []"
      using Cons.prems(1) True by (auto simp: filter_empty_conv image_iff)
    with True Cons.prems(3) show ?thesis by simp
  next
    case False
    with Cons.prems have "e \<in> set tbl" "ep_id a \<noteq> ep_id e"
      by auto
    with Cons show ?thesis by simp
  qed
qed

lemma filter_split_row:
  "length (filter (\<lambda>x. (A x \<or> B x) \<and> S x) tbl) =
   length (filter (\<lambda>x. A x \<and> S x) tbl) + length (filter (\<lambda>x. \<not> A x \<and> B x \<and> S x) tbl)"
  by (induction tbl) auto

lemma filter_after_queueing:
  "length (filter (\<lambda>x. ep_id x \<in> I \<and> status x \<in> {DISCOVERED, FAILED})
             (map (\<lambda>x. if ep_id x = i then queued_row env x else x) tbl)) =
   length (filter (\<lambda>x. \<not> ep_id x = i \<and> ep_id x \<in> I \<and> status x \<in> {DISCOVERED, FAILED}) tbl)"
  by (induction tbl) (auto simp: queued_row_def)

lemma queue_loop_count:
  "distinct (map ep_id tbl) \<Longrightarrow> queue_loop env ids (tbl, q, n, ts) = (tbl', q', n', ts') \<Longrightarrow>
   n' = n + length (filter (\<lambda>x. ep_id x \<in> set ids \<and> status x \<in> {DISCOVERED, FAILED}) tbl)"
proof (induction ids arbitrary: tbl q n ts)
  case Nil
  then show ?case by simp
next
  case (Cons i ids)
  show ?case
  proof (cases "session_get tbl i")
    case None
    then have no: "\<And>x. x \<in> set tbl \<Longrightarrow> ep_id x \<noteq> i"
      by (rule session_get_None)
    have same: "filter (\<lambda>x. ep_id x \<in> set (i # ids) \<and> status x \<in> {DISCOVERED, FAILED}) tbl =
                filter (\<lambda>x. ep_id x \<in> set ids \<and> status x \<in> {DISCOVERED, FAILED}) tbl"
      using no by (auto intro: filter_cong)
    from None Cons.prems have "queue_loop env ids (tbl, q, n, ts) = (tbl', q', n', ts')"
      by simp
    from Cons.IH [OF Cons.prems(1) this] same show ?thesis by simp
  next
    case (Some e)
    then have e: "e \<in> set tbl" "ep_id e = i" by (auto dest: session_get_Some)
    have only: "\<And>x. x \<in> set tbl \<Longrightarrow> ep_id x = i \<Longrightarrow> x = e"
      using Cons.prems(1) Some session_get_distinct by fastforce
    show ?thesis
    proof (cases "status e \<in> {DISCOVERED, FAILED}")
      case False
      have same: "filter (\<lambda>x. ep_id x \<in> set (i # ids) \<and> status x \<in> {DISCOVERED, FAILED}) tbl =
                  filter (\<lambda>x. ep_id x \<in> set ids \<and> status x \<in> {DISCOVERED, FAILED}) tbl"
        using only False by (auto intro: filter_cong)
      from Some False Cons.prems have "queue_loop env ids (tbl, q, n, ts) = (tbl', q', n', ts')"
        by simp
      from Cons.IH [OF Cons.prems(1) this] same show ?thesis by simp
    next
      case True
      let ?tbl1 = "session_add (e\<lparr>status := QUEUED, updated_at := utcnow env\<rparr>) tbl"
      have t1: "?tbl1 = map (\<lambda>x. if ep_id x = i then queued_row env x else x) tbl"
        using session_add_distinct [OF Cons.prems(1) Some, of "queued_row env"] e
        by (simp add: queued_row_def)
      have d1: "distinct (map ep_id ?tbl1)"
        using Cons.prems(1) by (simp add: session_add_ids)
      obtain q1 ts1 where
        "queue_loop env ids (?tbl1, q1, n + 1, ts1) = (tbl', q', n', ts')"
        using Some True Cons.prems(2)
        by (cases "broker_up env i") (simp_all add: dispatch_episode_processing_def Let_def)
      from Cons.IH [OF d1 this]
      have "n' = n + 1 + length (filter (\<lambda>x. ep_id x \<in> set ids \<and> status x \<in> {DISCOVERED, FAILED}) ?tbl1)"
        by simp
      also have "length (filter (\<lambda>x. ep_id x \<in> set ids \<and> status x \<in> {DISCOVERED, FAILED}) ?tbl1) =
        length (filter (\<lambda>x. \<not> ep_id x = i \<and> ep_id x \<in> set ids \<and> status x \<in> {DISCOVERED, FAILED}) tbl)"
        unfolding t1 by (rule filter_after_queueing)
      finally have n': "n' = n + 1 +
        length (filter (\<lambda>x. \<not> ep_id x = i \<and> ep_id x \<in> set ids \<and> status x \<in> {DISCOVERED, FAILED}) tbl)" .
      have one: "length (filter (\<lambda>x. ep_id x = i \<and> status x \<in> {DISCOVERED, FAILED}) tbl) = 1"
        using filter_one_row [OF Cons.prems(1) e(1), of "\<lambda>x. status x \<in> {DISCOVERED, FAILED}"] True e(2)
        by simp
      have "length (filter (\<lambda>x. ep_id x \<in> set (i # ids) \<and> status x \<in> {DISCOVERED, FAILED}) tbl) =
            length (filter (\<lambda>x. (ep_id x = i \<or> ep_id x \<in> set ids) \<and> status x \<in> {DISCOVERED, FAILED}) tbl)"
        by simp
      also have "\<dots> = 1 + length (filter (\<lambda>x. \<not> ep_id x = i \<and> ep_id x \<in> set ids \<and> status x \<in> {DISCOVERED, FAILED}) tbl)"
        unfolding filter_split_row [of "\<lambda>x. ep_id x = i"] one by simp
      finally show ?thesis using n' by simp
    qed
  qed
qed

lemma queue_episodes_response:
  assumes "distinct (map ep_id (episodes w))"
  shows "\<exists>msgs ts. broker (fst (queue_episodes env ids w)) = broker w @ msgs \<and>
     snd (queue_episodes env ids w) =
       Inr (length (filter (\<lambda>x. ep_id x \<in> set ids \<and> status x \<in> {DISCOVERED, FAILED}) (episodes w)), ts) \<and>
     (\<forall>m \<in> set msgs. broker_up env (fst (task_args m)) \<and>
        (\<exists>x \<in> set (episodes w). ep_id x = fst (task_args m) \<and> status x \<in> {DISCOVERED, FAILED})) \<and>
     (\<forall>p \<in> set ts. broker_up env (fst p) \<and>
        (\<exists>x \<in> set (episodes w). ep_id x = fst p \<and> status x \<in> {DISCOVERED, FAILED}))"
proof -
  obtain tbl' q' n' ts' where
    l: "queue_loop env ids (episodes w, broker w, 0, []) = (tbl', q', n', ts')"
    by (cases "queue_loop env ids (episodes w, broker w, 0, [])") auto
  from queue_loop_count [OF assms l]
  have n: "n' = length (filter (\<lambda>x. ep_id x \<in> set ids \<and> status x \<in> {DISCOVERED, FAILED}) (episodes w))"
    by simp
  from queue_loop_dispatched [OF l] obtain msgs new where
    r: "q' = broker w @ msgs" "ts' = new"
    "\<forall>m \<in> set msgs. broker_up env (fst (task_args m)) \<and>
        (\<exists>x \<in> set (episodes w). ep_id x = fst (task_args m) \<and> status x \<in> {DISCOVERED, FAILED})"
    "\<forall>p \<in> set new. broker_up env (fst p) \<and>
        (\<exists>x \<in> set (episodes w). ep_id x = fst p \<and> status x \<in> {DISCOVERED, FAILED})"
    by auto
  have "broker (fst (queue_episodes env ids w)) = broker w @ msgs"
    "snd (queue_episodes env ids w) = Inr (n', new)"
    using l r(1,2) by (simp_all add: queue_episodes_def)
  with n r(3,4) show ?thesis by blast
qed

lemma queue_episodes_table:
  "distinct (map ep_id (episodes w)) \<Longrightarrow>
   episodes (fst (queue_episodes env ids w)) =
     map (\<lambda>e. if ep_id e \<in> set ids \<and> status e \<in> {DISCOVERED, FAILED} then queued_row env e else e)
       (episodes w)"
  using queue_loop_table [of "episodes w" env ids "broker w" 0 "[]"]
  by (cases "queue_loop env ids (episodes w, broker w, 0, [])") (simp add: queue_episodes_def)

text \<open>
  C1, as stated, fails: with the broker down, queueing the DISCOVERED episode a commits it
  as QUEUED, reports it as queued with no task, and nothing reverts it to FAILED.
\<close>

theorem dispatch_failure_leaves_queued_counterexample:
  "\<not> broker_up env0 1 \<and> session_get (episodes world_abc) 1 = Some episode_a \<and>
   status episode_a = DISCOVERED \<and>
   queue_episodes env0 [1] world_abc =
     (world_abc\<lparr>episodes := [episode_a\<lparr>status := QUEUED, updated_at := 100\<rparr>, episode_b, episode_c]\<rparr>,
      Inr (1, []))"
  by (simp add: queue_episodes_def world_abc_def env0_def session_get_def session_add_def
      episode_a_def episode_b_def episode_c_def dispatch_episode_processing_def Let_def)

text \<open>
  C1, amended. In a bulk queue request, a listed episode that is DISCOVERED or FAILED and
  whose dispatch fails (the broker is unreachable for that call) ends the request
  committed as QUEUED with a fresh updated_at, and is not reverted: the dispatch error is
  caught and only logged. The work channel keeps what it held and gains no message for
  this episode; the request still succeeds, its count \<open>queued\<close> is the number of listed
  rows that were DISCOVERED or FAILED, this episode among them, and its task list has no
  entry for this episode. The episode table is taken with its primary key (no two rows
  share an id).
\<close>

theorem dispatch_failure_leaves_queued:
  assumes "\<not> broker_up env (ep_id e)" and "distinct (map ep_id (episodes w))"
    and "e \<in> set (episodes w)" and "ep_id e \<in> set episode_ids"
    and "status e \<in> {DISCOVERED, FAILED}"
  shows "session_get (episodes (fst (queue_episodes env episode_ids w))) (ep_id e) =
           Some (e\<lparr>status := QUEUED, updated_at := utcnow env\<rparr>) \<and>
         (\<exists>msgs. broker (fst (queue_episodes env episode_ids w)) = broker w @ msgs \<and>
                 (\<forall>m \<in> set msgs. fst (task_args m) \<noteq> ep_id e)) \<and>
         (\<exists>ts. snd (queue_episodes env episode_ids w) =
                  Inr (length (filter (\<lambda>x. ep_id x \<in> set episode_ids \<and>
                                           status x \<in> {DISCOVERED, FAILED}) (episodes w)), ts) \<and>
               (\<forall>t. (ep_id e, t) \<notin> set ts)) \<and>
         e \<in> set (filter (\<lambda>x. ep_id x \<in> set episode_ids \<and> status x \<in> {DISCOVERED, FAILED})
                    (episodes w))"
proof -
  let ?tbl = "episodes (fst (queue_episodes env episode_ids w))"
  have t: "?tbl = map (\<lambda>e. if ep_id e \<in> set episode_ids \<and> status e \<in> {DISCOVERED, FAILED}
                            then queued_row env e else e) (episodes w)"
    using assms(2) by (rule queue_episodes_table)
  have "map ep_id ?tbl = map ep_id (episodes w)"
    unfolding t by (simp add: queued_row_def comp_def)
  then have d: "distinct (map ep_id ?tbl)"
    using assms(2) by simp
  have m: "queued_row env e \<in> set ?tbl"
    unfolding t using assms(3,4,5) by force
  have "session_get ?tbl (ep_id (queued_row env e)) = Some (queued_row env e)"
    using d m by (rule session_get_distinct)
  then have 1: "session_get ?tbl (ep_id e) = Some (e\<lparr>status := QUEUED, updated_at := utcnow env\<rparr>)"
    by (simp add: queued_row_def)
  from queue_episodes_response [OF assms(2), of env episode_ids] obtain msgs ts where
    r: "broker (fst (queue_episodes env episode_ids w)) = broker w @ msgs"
    "snd (queue_episodes env episode_ids w) =
       Inr (length (filter (\<lambda>x. ep_id x \<in> set episode_ids \<and> status x \<in> {DISCOVERED, FAILED})
                      (episodes w)), ts)"
    "\<forall>m \<in> set msgs. broker_up env (fst (task_args m))"
    "\<forall>p \<in> set ts. broker_up env (fst p)"
    by blast
  have 2: "\<forall>m \<in> set msgs. fst (task_args m) \<noteq> ep_id e"
    using r(3) assms(1) by auto
  have 3: "\<forall>t. (ep_id e, t) \<notin> set ts"
    using r(4) assms(1) by force
  have 4: "e \<in> set (filter (\<lambda>x. ep_id x \<in> set episode_ids \<and> status x \<in> {DISCOVERED, FAILED})
                    (episodes w))"
    using assms(3,4,5) by simp
  from r(1) 2 have 5: "\<exists>msgs. broker (fst (queue_episodes env episode_ids w)) = broker w @ msgs \<and>
                 (\<forall>m \<in> set msgs. fst (task_args m) \<noteq> ep_id e)"
    by blast
  from r(2) 3 have 6: "\<exists>ts. snd (queue_episodes env episode_ids w) =
                  Inr (length (filter (\<lambda>x. ep_id x \<in> set episode_ids \<and>
                                           status x \<in> {DISCOVERED, FAILED}) (episodes w)), ts) \<and>
               (\<forall>t. (ep_id e, t) \<notin> set ts)"
    by blast
  from 1 5 6 4 show ?thesis by blast
qed

lemma queue_partial_value:
  "queue_episodes env_partial [2, 1] world_abc =
     (world_abc\<lparr>episodes := [episode_a\<lparr>status := QUEUED, updated_at := 100\<rparr>,
                              episode_b\<lparr>status := QUEUED, updated_at := 100\<rparr>, episode_c],
                 broker := [\<lparr>task_name = ''worker.process_episode'',
                             task_args = (1, audio_url episode_a, ''http://web:8000/upload/1''),
                             task_queue = ''audio_processing''\<rparr>]\<rparr>,
      Inr (2, [(1, ''task'')]))"
  by (simp add: queue_episodes_def world_abc_def env_partial_def env0_def session_get_def
      session_add_def episode_a_def episode_b_def episode_c_def dispatch_episode_processing_def
      Let_def MANAGER_BASE_URL_def str_int_simps)

theorem dispatch_failure_leaves_queued_witness:
  "\<not> broker_up env_partial (ep_id episode_b) \<and> distinct (map ep_id (episodes world_abc)) \<and>
   episode_b \<in> set (episodes world_abc) \<and> ep_id episode_b \<in> set [2, 1] \<and>
   status episode_b \<in> {DISCOVERED, FAILED} \<and>
   session_get (episodes (fst (queue_episodes env_partial [2, 1] world_abc))) (ep_id episode_b) =
     Some (episode_b\<lparr>status := QUEUED, updated_at := utcnow env_partial\<rparr>) \<and>
   snd (queue_episodes env_partial [2, 1] world_abc) = Inr (2, [(1, ''task'')]) \<and>
   map (\<lambda>m. fst (task_args m)) (broker (fst (queue_episodes env_partial [2, 1] world_abc))) = [1]"
proof -
  have h: "\<not> broker_up env_partial (ep_id episode_b)" "distinct (map ep_id (episodes world_abc))"
    "episode_b \<in> set (episodes world_abc)" "ep_id episode_b \<in> set [2, 1]"
    "status episode_b \<in> {DISCOVERED, FAILED}"
    by (simp_all add: env_partial_def env0_def world_abc_def episode_a_def episode_b_def episode_c_def)
  have v: "snd (queue_episodes env_partial [2, 1] world_abc) = Inr (2, [(1, ''task'')])"
    "map (\<lambda>m. fst (task_args m)) (broker (fst (queue_episodes env_partial [2, 1] world_abc))) = [1]"
    by (simp_all add: queue_partial_value)
  from dispatch_failure_leaves_queued [OF h] h v show ?thesis
    by blast
qed

section \<open>State-machine closure\<close>

lemma session_get_session_add:
  "session_get tbl i = Some e \<Longrightarrow> ep_id e' = i \<Longrightarrow> session_get (session_add e' tbl) i = Some e'"
  unfolding session_get_def session_add_def
  by (induction tbl) (auto split: if_splits)

lemma upload_success_row:
  assumes "session_get (episodes w) episode_id = Some episode" and "mp3_name file"
    and "storage_ok env"
  shows "session_get (episodes (fst (upload_cleaned_audio env episode_id file w))) episode_id =
           Some (cleaned_row env episode_id file episode)"
proof -
  have "ep_id (cleaned_row env episode_id file episode) = episode_id"
    using assms(1) by (auto simp: cleaned_row_def dest: session_get_Some)
  with assms show ?thesis
    by (simp add: upload_success_fst broadcast_frame session_get_session_add)
qed

text \<open>
  The ignore loop, whatever \<^verbatim>\<open>EpisodeStatus.IGNORED\<close> evaluates to: a run that reaches the
  commit has kept every row that was neither DISCOVERED nor FAILED.
\<close>

lemma ignore_loop_keeps:
  "ignore_loop env ids (tbl, n) = Inr (tbl', n') \<Longrightarrow> distinct (map ep_id tbl) \<Longrightarrow>
   e \<in> set tbl \<Longrightarrow> status e \<notin> {DISCOVERED, FAILED} \<Longrightarrow>
   e \<in> set tbl' \<and> distinct (map ep_id tbl')"
proof (induction ids arbitrary: tbl n)
  case Nil
  then show ?case by simp
next
  case (Cons i ids)
  show ?case
  proof (cases "session_get tbl i")
    case None
    with Cons.prems(1) have "ignore_loop env ids (tbl, n) = Inr (tbl', n')"
      by simp
    from Cons.IH [OF this Cons.prems(2,3,4)] show ?thesis .
  next
    case (Some x)
    then have x: "x \<in> set tbl" "ep_id x = i" by (auto dest: session_get_Some)
    show ?thesis
    proof (cases "status x \<in> {DISCOVERED, FAILED}")
      case False
      with Some Cons.prems(1) have "ignore_loop env ids (tbl, n) = Inr (tbl', n')"
        by simp
      from Cons.IH [OF this Cons.prems(2,3,4)] show ?thesis .
    next
      case True
      show ?thesis
      proof (cases "EpisodeStatus_getattr ''IGNORED''")
        case (Inl err)
        with Some True Cons.prems(1) show ?thesis by simp
      next
        case (Inr ignored)
        let ?tbl1 = "session_add (x\<lparr>status := ignored, updated_at := utcnow env\<rparr>) tbl"
        from Inr Some True Cons.prems(1)
        have l: "ignore_loop env ids (?tbl1, n + 1) = Inr (tbl', n')"
          by simp
        have ge: "session_get tbl (ep_id e) = Some e"
          using Cons.prems(2,3) by (rule session_get_distinct)
        have "ep_id e \<noteq> i"
        proof
          assume "ep_id e = i"
          with ge Some have "x = e" by simp
          with True Cons.prems(4) show False by simp
        qed
        with Cons.prems(3) x have e1: "e \<in> set ?tbl1"
          by (auto simp: session_add_def)
        have d1: "distinct (map ep_id ?tbl1)"
          using Cons.prems(2) by (simp add: session_add_ids)
        from Cons.IH [OF l d1 e1 Cons.prems(4)] show ?thesis .
      qed
    qed
  qed
qed

lemma ignore_keeps_row:
  assumes "distinct (map ep_id (episodes w))" and "e \<in> set (episodes w)"
    and "status e \<notin> {DISCOVERED, FAILED}"
  shows "session_get (episodes (fst (ignore_episodes env ids w))) (ep_id e) = Some e"
proof (cases "ignore_loop env ids (episodes w, 0)")
  case (Inl err)
  then have "fst (ignore_episodes env ids w) = w"
    by (simp add: ignore_episodes_def)
  with assms(1,2) show ?thesis
    by (simp add: session_get_distinct)
next
  case (Inr r)
  obtain tbl' n' where r: "r = (tbl', n')" by (cases r)
  with Inr have l: "ignore_loop env ids (episodes w, 0) = Inr (tbl', n')"
    by simp
  then have "episodes (fst (ignore_episodes env ids w)) = tbl'"
    by (simp add: ignore_episodes_def)
  with ignore_loop_keeps [OF l assms] show ?thesis
    by (simp add: session_get_distinct)
qed

lemma ignore_loop_skips:
  "\<forall>x \<in> set tbl. ep_id x \<in> set ids \<longrightarrow> status x \<notin> {DISCOVERED, FAILED} \<Longrightarrow>
   ignore_loop env ids (tbl, n) = Inr (tbl, n)"
proof (induction ids)
  case Nil
  then show ?case by simp
next
  case (Cons i ids)
  then have ih: "ignore_loop env ids (tbl, n) = Inr (tbl, n)"
    by simp
  show ?case
  proof (cases "session_get tbl i")
    case None
    with ih show ?thesis by simp
  next
    case (Some x)
    then have "x \<in> set tbl" "ep_id x = i" by (auto dest: session_get_Some)
    with Cons.prems have "status x \<notin> {DISCOVERED, FAILED}"
      by simp
    with Some ih show ?thesis by simp
  qed
qed

text \<open>
  The un-ignore loop likewise: a run that reaches the commit has kept every row whose
  status is not the value of \<^verbatim>\<open>EpisodeStatus.IGNORED\<close>.
\<close>

lemma unignore_loop_keeps:
  "unignore_loop env ids (tbl, n) = Inr (tbl', n') \<Longrightarrow> distinct (map ep_id tbl) \<Longrightarrow>
   e \<in> set tbl \<Longrightarrow> EpisodeStatus_getattr ''IGNORED'' \<noteq> Inr (status e) \<Longrightarrow>
   e \<in> set tbl' \<and> distinct (map ep_id tbl')"
proof (induction ids arbitrary: tbl n)
  case Nil
  then show ?case by simp
next
  case (Cons i ids)
  show ?case
  proof (cases "session_get tbl i")
    case None
    with Cons.prems(1) have "unignore_loop env ids (tbl, n) = Inr (tbl', n')"
      by simp
    from Cons.IH [OF this Cons.prems(2,3,4)] show ?thesis .
  next
    case (Some x)
    show ?thesis
    proof (cases "EpisodeStatus_getattr ''IGNORED''")
      case (Inl err)
      with Some Cons.prems(1) show ?thesis by simp
    next
      case (Inr ignored)
      show ?thesis
      proof (cases "status x = ignored")
        case False
        with Inr Some Cons.prems(1) have "unignore_loop env ids (tbl, n) = Inr (tbl', n')"
          by simp
        from Cons.IH [OF this Cons.prems(2,3,4)] show ?thesis .
      next
        case True
        let ?tbl1 = "session_add (x\<lparr>status := DISCOVERED, updated_at := utcnow env\<rparr>) tbl"
        from True Inr Some Cons.prems(1)
        have l: "unignore_loop env ids (?tbl1, n + 1) = Inr (tbl', n')"
          by simp
        have x: "ep_id x = i"
          using Some by (auto dest: session_get_Some)
        have ge: "session_get tbl (ep_id e) = Some e"
          using Cons.prems(2,3) by (rule session_get_distinct)
        have "ep_id e \<noteq> i"
        proof
          assume "ep_id e = i"
          with ge Some have "x = e" by simp
          with True Inr Cons.prems(4) show False by simp
        qed
        with Cons.prems(3) x have e1: "e \<in> set ?tbl1"
          by (auto simp: session_add_def)
        have d1: "distinct (map ep_id ?tbl1)"
          using Cons.prems(2) by (simp add: session_add_ids)
        from Cons.IH [OF l d1 e1 Cons.prems(4)] show ?thesis .
      qed
    qed
  qed
qed

lemma unignore_keeps_row:
  assumes "distinct (map ep_id (episodes w))" and "e \<in> set (episodes w)"
    and "EpisodeStatus_getattr ''IGNORED'' \<noteq> Inr (status e)"
  shows "session_get (episodes (fst (unignore_episodes env ids w))) (ep_id e) = Some e"
proof (cases "unignore_loop env ids (episodes w, 0)")
  case (Inl err)
  then have "fst (unignore_episodes env ids w) = w"
    by (simp add: unignore_episodes_def)
  with assms(1,2) show ?thesis
    by (simp add: session_get_distinct)
next
  case (Inr r)
  obtain tbl' n' where r: "r = (tbl', n')" by (cases r)
  with Inr have l: "unignore_loop env ids (episodes w, 0) = Inr (tbl', n')"
    by simp
  then have "episodes (fst (unignore_episodes env ids w)) = tbl'"
    by (simp add: unignore_episodes_def)
  with unignore_loop_keeps [OF l assms] show ?thesis
    by (simp add: session_get_distinct)
qed

text \<open>
  C3, as stated, fails: episode a is DISCOVERED and was never queued, yet a successful
  completion callback for it is accepted and advances it to CLEANED.
\<close>

theorem callback_has_no_status_guard_counterexample:
  "session_get (episodes world_abc) 1 = Some episode_a \<and> status episode_a = DISCOVERED \<and>
   snd (upload_cleaned_audio env0 1 upload_mp3 world_abc) =
     Inr \<lparr>up_message = ''File uploaded successfully'', up_episode_id = 1,
          up_local_filename = Some ''1/1_episode_1_cleaned.mp3''\<rparr> \<and>
   map status (episodes (fst (upload_cleaned_audio env0 1 upload_mp3 world_abc))) =
     [CLEANED, FAILED, QUEUED]"
  by (simp add: upload_cleaned_audio_def upload_mp3_def world_abc_def env0_def session_get_def
      session_add_def episode_a_def episode_b_def episode_c_def endswith_def replace_slash_def
      str_int_simps Let_def broadcast_def)

text \<open>
  C3, amended, for an episode e of a table with its primary key. Queue: when e is neither
  DISCOVERED nor FAILED, the bulk queue request leaves its row as it was and passes it
  over without rejecting anything: the request answers with the count of the listed rows
  that were DISCOVERED or FAILED, e not among them, no task is listed for e and the work
  channel gains no message for e. Ignore: when e is neither DISCOVERED nor FAILED its row
  is left as it was, and a request that lists no DISCOVERED or FAILED row changes nothing
  and answers with the count 0. Un-ignore: when the status of e is not IGNORED its row is
  left as it was. Completion callback: there is no status guard; whatever the status of
  e, an upload with an MP3 name and working storage leaves e CLEANED, and it is answered
  as a success when no websocket connects or disconnects while the completion event is
  broadcast.
\<close>

theorem illegal_transitions:
  assumes "distinct (map ep_id (episodes w))" and "e \<in> set (episodes w)"
  shows "(status e \<notin> {DISCOVERED, FAILED} \<longrightarrow>
            session_get (episodes (fst (queue_episodes env ids w))) (ep_id e) = Some e \<and>
            (\<exists>msgs. broker (fst (queue_episodes env ids w)) = broker w @ msgs \<and>
                    (\<forall>m \<in> set msgs. fst (task_args m) \<noteq> ep_id e)) \<and>
            (\<exists>ts. snd (queue_episodes env ids w) =
                     Inr (length (filter (\<lambda>x. ep_id x \<in> set ids \<and>
                                              status x \<in> {DISCOVERED, FAILED}) (episodes w)), ts) \<and>
                  (\<forall>t. (ep_id e, t) \<notin> set ts)) \<and>
            e \<notin> set (filter (\<lambda>x. ep_id x \<in> set ids \<and> status x \<in> {DISCOVERED, FAILED})
                       (episodes w)) \<and>
            session_get (episodes (fst (ignore_episodes env ids w))) (ep_id e) = Some e \<and>
            ((\<forall>x \<in> set (episodes w). ep_id x \<in> set ids \<longrightarrow> status x \<notin> {DISCOVERED, FAILED}) \<longrightarrow>
               ignore_episodes env ids w = (w, Inr 0))) \<and>
         (EpisodeStatus_getattr ''IGNORED'' \<noteq> Inr (status e) \<longrightarrow>
            session_get (episodes (fst (unignore_episodes env ids w))) (ep_id e) = Some e) \<and>
         (mp3_name file \<and> storage_ok env \<longrightarrow>
            (\<exists>e'. session_get (episodes (fst (upload_cleaned_audio env (ep_id e) file w))) (ep_id e)
                     = Some e' \<and> status e' = CLEANED) \<and>
            (quiet env w \<longrightarrow> (\<exists>r. snd (upload_cleaned_audio env (ep_id e) file w) = Inr r)))"
proof -
  have g: "session_get (episodes w) (ep_id e) = Some e"
    using assms by (rule session_get_distinct)
  have only: "\<And>x. x \<in> set (episodes w) \<Longrightarrow> ep_id x = ep_id e \<Longrightarrow> x = e"
    using assms(1) g session_get_distinct by fastforce
  have q1: "session_get (episodes (fst (queue_episodes env ids w))) (ep_id e) = Some e"
    if "status e \<notin> {DISCOVERED, FAILED}"
  proof -
    let ?tbl = "episodes (fst (queue_episodes env ids w))"
    have t: "?tbl = map (\<lambda>e. if ep_id e \<in> set ids \<and> status e \<in> {DISCOVERED, FAILED}
                              then queued_row env e else e) (episodes w)"
      using assms(1) by (rule queue_episodes_table)
    have "map ep_id ?tbl = map ep_id (episodes w)"
      unfolding t by (simp add: queued_row_def comp_def)
    then have d: "distinct (map ep_id ?tbl)"
      using assms(1) by simp
    have "e \<in> set ?tbl"
      unfolding t using assms(2) that by force
    with d show ?thesis by (rule session_get_distinct)
  qed
  from queue_episodes_response [OF assms(1), of env ids] obtain msgs ts where
    r: "broker (fst (queue_episodes env ids w)) = broker w @ msgs"
    "snd (queue_episodes env ids w) =
       Inr (length (filter (\<lambda>x. ep_id x \<in> set ids \<and> status x \<in> {DISCOVERED, FAILED})
                      (episodes w)), ts)"
    "\<forall>m \<in> set msgs. \<exists>x \<in> set (episodes w). ep_id x = fst (task_args m) \<and>
        status x \<in> {DISCOVERED, FAILED}"
    "\<forall>p \<in> set ts. \<exists>x \<in> set (episodes w). ep_id x = fst p \<and> status x \<in> {DISCOVERED, FAILED}"
    by blast
  have q2: "\<exists>msgs. broker (fst (queue_episodes env ids w)) = broker w @ msgs \<and>
                    (\<forall>m \<in> set msgs. fst (task_args m) \<noteq> ep_id e)"
    if "status e \<notin> {DISCOVERED, FAILED}"
  proof -
    have "\<forall>m \<in> set msgs. fst (task_args m) \<noteq> ep_id e"
      using r(3) only that by metis
    with r(1) show ?thesis by blast
  qed
  have q3: "\<exists>ts. snd (queue_episodes env ids w) =
                     Inr (length (filter (\<lambda>x. ep_id x \<in> set ids \<and>
                                              status x \<in> {DISCOVERED, FAILED}) (episodes w)), ts) \<and>
                  (\<forall>t. (ep_id e, t) \<notin> set ts)"
    if "status e \<notin> {DISCOVERED, FAILED}"
  proof -
    have "\<forall>t. (ep_id e, t) \<notin> set ts"
    proof (intro allI notI)
      fix t
      assume "(ep_id e, t) \<in> set ts"
      with r(4) obtain x where "x \<in> set (episodes w)" "ep_id x = ep_id e"
        "status x \<in> {DISCOVERED, FAILED}"
        by force
      with only that show False by blast
    qed
    with r(2) show ?thesis by blast
  qed
  have i1: "session_get (episodes (fst (ignore_episodes env ids w))) (ep_id e) = Some e"
    if "status e \<notin> {DISCOVERED, FAILED}"
    using assms that by (rule ignore_keeps_row)
  have i2: "ignore_episodes env ids w = (w, Inr 0)"
    if "\<forall>x \<in> set (episodes w). ep_id x \<in> set ids \<longrightarrow> status x \<notin> {DISCOVERED, FAILED}"
    using ignore_loop_skips [OF that, of env 0] by (simp add: ignore_episodes_def)
  have un: "session_get (episodes (fst (unignore_episodes env ids w))) (ep_id e) = Some e"
    if "EpisodeStatus_getattr ''IGNORED'' \<noteq> Inr (status e)"
    using assms that by (rule unignore_keeps_row)
  have u1: "\<exists>e'. session_get (episodes (fst (upload_cleaned_audio env (ep_id e) file w))) (ep_id e)
                    = Some e' \<and> status e' = CLEANED"
    if "mp3_name file" "storage_ok env"
    using upload_success_row [OF g that] by (simp add: cleaned_row_def)
  have u2: "\<exists>r. snd (upload_cleaned_audio env (ep_id e) file w) = Inr r"
    if "mp3_name file" "storage_ok env" "quiet env w"
    using upload_success [OF g that] by simp
  from q1 q2 q3 i1 i2 un u1 u2 show ?thesis
    by simp
qed

theorem illegal_transitions_witness:
  "distinct (map ep_id (episodes world_abc)) \<and> episode_c \<in> set (episodes world_abc) \<and>
   status episode_c = QUEUED \<and> mp3_name upload_mp3 \<and> storage_ok env0 \<and> quiet env0 world_abc \<and>
   session_get (episodes (fst (queue_episodes env0 [3, 1] world_abc))) 3 = Some episode_c \<and>
   (\<exists>ts. snd (queue_episodes env0 [3, 1] world_abc) = Inr (1, ts)) \<and>
   session_get (episodes (fst (ignore_episodes env0 [3] world_abc))) 3 = Some episode_c \<and>
   ignore_episodes env0 [3] world_abc = (world_abc, Inr 0) \<and>
   EpisodeStatus_getattr ''IGNORED'' \<noteq> Inr (status episode_c) \<and>
   session_get (episodes (fst (unignore_episodes env0 [3] world_abc))) 3 = Some episode_c \<and>
   (\<exists>e'. session_get (episodes (fst (upload_cleaned_audio env0 3 upload_mp3 world_abc))) 3 = Some e' \<and>
         status e' = CLEANED) \<and>
   (\<exists>r. snd (upload_cleaned_audio env0 3 upload_mp3 world_abc) = Inr r)"
proof -
  have h: "distinct (map ep_id (episodes world_abc))" "episode_c \<in> set (episodes world_abc)"
    by (simp_all add: world_abc_def episode_a_def episode_b_def episode_c_def)
  have s: "status episode_c = QUEUED" "ep_id episode_c = 3" "mp3_name upload_mp3" "storage_ok env0"
    "quiet env0 world_abc" "EpisodeStatus_getattr ''IGNORED'' \<noteq> Inr (status episode_c)"
    by (simp_all add: episode_c_def mp3_name_def upload_mp3_def endswith_def env0_def quiet_def
        getattr_IGNORED)
  have c: "length (filter (\<lambda>x. ep_id x \<in> set [3, 1] \<and> status x \<in> {DISCOVERED, FAILED})
                     (episodes world_abc)) = 1"
    "\<forall>x \<in> set (episodes world_abc). ep_id x \<in> set [3] \<longrightarrow> status x \<notin> {DISCOVERED, FAILED}"
    by (simp_all add: world_abc_def episode_a_def episode_b_def episode_c_def)
  from illegal_transitions [OF h, of env0 "[3, 1]" upload_mp3]
       illegal_transitions [OF h, of env0 "[3]" upload_mp3] h s c
  show ?thesis by auto
qed

section \<open>The artifact invariant\<close>

lemma artifact_inv_session_add:
  "artifact_inv tbl \<Longrightarrow> (local_filename e \<noteq> None) = (status e = CLEANED) \<Longrightarrow>
   artifact_inv (session_add e tbl)"
  by (auto simp: artifact_inv_def session_add_def)

lemma queue_loop_inv:
  "artifact_inv tbl \<Longrightarrow> artifact_inv (fst (queue_loop env ids (tbl, q, n, ts)))"
proof (induction ids arbitrary: tbl q n ts)
  case Nil
  then show ?case by simp
next
  case (Cons i ids)
  show ?case
  proof (cases "session_get tbl i")
    case None
    with Cons show ?thesis by simp
  next
    case (Some e)
    show ?thesis
    proof (cases "status e \<in> {DISCOVERED, FAILED}")
      case False
      with Some Cons show ?thesis by simp
    next
      case True
      have "e \<in> set tbl" using Some by (auto dest: session_get_Some)
      with Cons.prems True have "local_filename e = None"
        by (auto simp: artifact_inv_def)
      then have "artifact_inv (session_add (e\<lparr>status := QUEUED, updated_at := utcnow env\<rparr>) tbl)"
        using Cons.prems by (intro artifact_inv_session_add) simp_all
      with Some True Cons.IH show ?thesis
        by (simp add: Let_def split: sum.splits prod.splits)
    qed
  qed
qed

lemma ingest_items_inv:
  "artifact_inv tbl \<Longrightarrow> artifact_inv (fst (ingest_items now fid items (tbl, seq, new)))"
proof (induction items arbitrary: tbl seq new)
  case Nil
  then show ?case by simp
next
  case (Cons it items)
  have "artifact_inv (tbl @ [e])" if "local_filename e = None" "status e = DISCOVERED" for e
    using Cons.prems that by (auto simp: artifact_inv_def)
  with Cons show ?case
    by (simp add: Let_def)
qed

lemma ingest_items_inv':
  "artifact_inv tbl \<Longrightarrow> ingest_items now fid items (tbl, seq, new) = (tbl', seq', new') \<Longrightarrow>
   artifact_inv tbl'"
  using ingest_items_inv [of tbl now fid items seq new] by simp

lemma ingest_feed_inv:
  "artifact_inv (episodes w) \<Longrightarrow> ingest_feed env fid w = Inr (w', new) \<Longrightarrow>
   artifact_inv (episodes w')"
  by (auto simp: ingest_feed_def split: option.splits sum.splits prod.splits
      dest: ingest_items_inv')

lemma upload_inv:
  "artifact_inv (episodes w) \<Longrightarrow> artifact_inv (episodes (fst (upload_cleaned_audio env i f w)))"
proof (cases "session_get (episodes w) i")
  case None
  assume "artifact_inv (episodes w)"
  with None show ?thesis by (simp add: upload_not_found)
next
  case (Some e)
  assume a: "artifact_inv (episodes w)"
  show ?thesis
  proof (cases "mp3_name f \<and> storage_ok env")
    case True
    then have "mp3_name f" "storage_ok env" by simp_all
    from upload_success_fst [OF Some this] a show ?thesis
      by (simp add: broadcast_frame artifact_inv_session_add cleaned_row_def)
  next
    case False
    with Some a show ?thesis
      by (cases "mp3_name f") (simp_all add: upload_bad_name upload_storage_failure)
  qed
qed

lemma queue_episodes_inv:
  "artifact_inv (episodes w) \<Longrightarrow> artifact_inv (episodes (fst (queue_episodes env ids w)))"
  using queue_loop_inv [of "episodes w" env ids "broker w" 0 "[]"]
  by (cases "queue_loop env ids (episodes w, broker w, 0, [])") (simp add: queue_episodes_def)

lemma create_feed_inv:
  "artifact_inv (episodes w) \<Longrightarrow> artifact_inv (episodes (fst (create_feed env url w)))"
  by (auto simp: create_feed_def Let_def split: option.splits sum.splits
      intro: ingest_feed_inv [where w = "w\<lparr>feeds := _, feed_seq := _\<rparr>", simplified])

lemma trigger_ingest_inv:
  "artifact_inv (episodes w) \<Longrightarrow> artifact_inv (episodes (fst (trigger_ingest env fid w)))"
  by (auto simp: trigger_ingest_def split: option.splits sum.splits intro: ingest_feed_inv)

lemma delete_feed_inv:
  "artifact_inv (episodes w) \<Longrightarrow> artifact_inv (episodes (fst (delete_feed fid w)))"
  by (auto simp: delete_feed_def artifact_inv_def Let_def split: option.splits)

lemma handle_request_inv:
  "artifact_inv (episodes w) \<Longrightarrow> artifact_inv (episodes (handle_request env req w))"
proof (cases req)
  case (UpdateFeedAutoProcess i b)
  assume "artifact_inv (episodes w)"
  with UpdateFeedAutoProcess show ?thesis
    by (simp add: update_feed_auto_process_def Let_def split: option.splits)
qed (simp_all add: connect_def disconnect_def update_progress_fst broadcast_frame upload_inv
       create_feed_inv delete_feed_inv trigger_ingest_inv ignore_episodes_fst
       unignore_episodes_fst queue_episodes_inv)

lemma reachable_inv: "reachable w \<Longrightarrow> artifact_inv (episodes w)"
proof (induction rule: reachable.induct)
  case start
  show ?case by (simp add: init_world_def artifact_inv_def)
next
  case (step w env req)
  then show ?case by (simp add: handle_request_inv)
qed

text \<open>
  C4. In every reachable world, every Episode row has local_filename set if and only if
  its status is CLEANED; and every request (connect, disconnect, progress report,
  completion callback, feed creation with its ingestion pass, auto-process patch, feed
  deletion, ingestion, ignore, un-ignore, queue), in any environment, keeps this true
  from any world in which it holds.
\<close>

theorem artifact_iff_cleaned:
  "(reachable w \<longrightarrow> artifact_inv (episodes w)) \<and>
   (artifact_inv (episodes w) \<longrightarrow> artifact_inv (episodes (handle_request env req w)))"
  by (simp add: reachable_inv handle_request_inv)


lemma scenario_value:
  "map (\<lambda>e. (ep_id e, status e, local_filename e)) (episodes scenario) =
     [(1, CLEANED, Some ''1/1_episode_1_cleaned.mp3''), (2, DISCOVERED, None), (3, DISCOVERED, None)]"
  by code_simp

theorem artifact_iff_cleaned_witness:
  "reachable scenario \<and> artifact_inv (episodes scenario) \<and>
   map (\<lambda>e. (ep_id e, status e, local_filename e)) (episodes scenario) =
     [(1, CLEANED, Some ''1/1_episode_1_cleaned.mp3''), (2, DISCOVERED, None), (3, DISCOVERED, None)] \<and>
   artifact_inv (episodes world_abc) \<and>
   artifact_inv (episodes (handle_request env0 (UploadCleanedAudio 3 upload_txt) world_abc))"
proof -
  have r: "reachable scenario"
    unfolding scenario_def by (intro reachable.step reachable.start)
  have a: "artifact_inv (episodes world_abc)"
    by (simp add: artifact_inv_def world_abc_def episode_a_def episode_b_def episode_c_def)
  from artifact_iff_cleaned [of scenario] artifact_iff_cleaned [of world_abc env0 "UploadCleanedAudio 3 upload_txt"]
    r a scenario_value
  show ?thesis by simp
qed

section \<open>Duplicate delivery of the completion callback\<close>

lemma upload_Inr_cases:
  assumes "upload_cleaned_audio env i f w = (w1, Inr r)"
  obtains e where "session_get (episodes w) i = Some e" "mp3_name f" "storage_ok env"
proof (cases "session_get (episodes w) i")
  case None
  with assms show ?thesis by (simp add: upload_not_found)
next
  case (Some e)
  with assms have "mp3_name f"
    by (cases "mp3_name f") (simp_all add: upload_bad_name)
  moreover from Some assms this have "storage_ok env"
    by (cases "storage_ok env") (simp_all add: upload_storage_failure)
  ultimately show ?thesis using Some that by blast
qed

lemma cleaned_row_twice:
  "cleaned_row env' i f (cleaned_row env i f e) = (cleaned_row env i f e)\<lparr>updated_at := utcnow env'\<rparr>"
  by (simp add: cleaned_row_def)

lemma session_add_twice:
  "ep_id e' = ep_id e \<Longrightarrow>
   session_add (e'\<lparr>updated_at := t\<rparr>) (session_add e' tbl) =
     map (\<lambda>x. if ep_id x = ep_id e' then x\<lparr>updated_at := t\<rparr> else x) (session_add e' tbl)"
  by (auto simp: session_add_def)

lemma upload_Inr_response:
  assumes "snd (upload_cleaned_audio env i f w) = Inr r"
    and "session_get (episodes w) i = Some e" "mp3_name f" "storage_ok env"
  shows "r = \<lparr>up_message = ''File uploaded successfully'', up_episode_id = i,
              up_local_filename = local_filename (cleaned_row env i f e)\<rparr>"
  using upload_success_snd [OF assms(2,3,4)] assms(1)
  by (simp split: option.splits)

lemma first_delivery_value:
  "snd (upload_cleaned_audio env0 3 upload_txt world_abc) =
     Inr \<lparr>up_message = ''File uploaded successfully'', up_episode_id = 3,
          up_local_filename = Some ''1/3_a.mp3''\<rparr>"
  "map status (episodes (fst (upload_cleaned_audio env0 3 upload_txt world_abc))) =
     [DISCOVERED, FAILED, CLEANED]"
  "files (fst (upload_cleaned_audio env0 3 upload_txt world_abc)) = [(''1/3_a.mp3'', ''hello'')]"
  "active_connections (fst (upload_cleaned_audio env0 3 upload_txt world_abc)) = [1, 3]"
  "session_get (episodes (fst (upload_cleaned_audio env0 3 upload_txt world_abc))) 3 =
     Some (episode_c\<lparr>local_filename := Some ''1/3_a.mp3'', status := CLEANED, updated_at := 100\<rparr>)"
  by (simp_all add: upload_cleaned_audio_def upload_txt_def world_abc_def env0_def session_get_def
      session_add_def episode_a_def episode_b_def episode_c_def endswith_def replace_slash_def
      str_int_simps Let_def broadcast_def)

lemma broadcast_busy:
  "active_connections w = [1, 3] \<Longrightarrow>
   snd (broadcast (env_busy\<lparr>utcnow := t\<rparr>) m w) = Some set_changed_size"
  by (simp add: broadcast_def env_busy_def env0_def connect_def)

text \<open>
  C5, as stated, fails. The first delivery for episode c succeeds. The second delivery,
  during which websocket 4 connects while the completion event is being sent, is answered
  with RuntimeError, not with a success; it has by then written the row again, which is
  CLEANED with the same artifact reference but with a new updated_at.
\<close>

theorem duplicate_callback_counterexample:
  "snd (upload_cleaned_audio env0 3 upload_txt world_abc) =
     Inr \<lparr>up_message = ''File uploaded successfully'', up_episode_id = 3,
          up_local_filename = Some ''1/3_a.mp3''\<rparr> \<and>
   session_get (episodes (fst (upload_cleaned_audio env0 3 upload_txt world_abc))) 3 =
     Some (episode_c\<lparr>local_filename := Some ''1/3_a.mp3'', status := CLEANED, updated_at := 100\<rparr>) \<and>
   storage_ok (env_busy\<lparr>utcnow := 300\<rparr>) \<and>
   snd (upload_cleaned_audio (env_busy\<lparr>utcnow := 300\<rparr>) 3 upload_txt
          (fst (upload_cleaned_audio env0 3 upload_txt world_abc))) =
     Inl (RuntimeError ''Set changed size during iteration'') \<and>
   session_get (episodes (fst (upload_cleaned_audio (env_busy\<lparr>utcnow := 300\<rparr>) 3 upload_txt
          (fst (upload_cleaned_audio env0 3 upload_txt world_abc))))) 3 =
     Some (episode_c\<lparr>local_filename := Some ''1/3_a.mp3'', status := CLEANED, updated_at := 300\<rparr>)"
proof -
  let ?env = "env_busy\<lparr>utcnow := 300\<rparr>"
  let ?w1 = "fst (upload_cleaned_audio env0 3 upload_txt world_abc)"
  let ?e1 = "episode_c\<lparr>local_filename := Some ''1/3_a.mp3'', status := CLEANED, updated_at := 100\<rparr>"
  let ?e2 = "episode_c\<lparr>local_filename := Some ''1/3_a.mp3'', status := CLEANED, updated_at := 300\<rparr>"
  let ?m = "\<lparr>ev_episode_id = 3, progress = 100, stage = ''completed''\<rparr>"
  have n: "mp3_name upload_txt" "storage_ok ?env"
    by (simp_all add: mp3_name_def upload_txt_def endswith_def env_busy_def env0_def)
  have c: "cleaned_row ?env 3 upload_txt ?e1 = ?e2"
    by (simp add: cleaned_row_def upload_txt_def episode_c_def env_busy_def env0_def
        replace_slash_def str_int_simps)
  have "snd (broadcast ?env ?m
          (?w1\<lparr>files := AList.update (the (local_filename ?e2)) (content upload_txt) (files ?w1),
                episodes := session_add ?e2 (episodes ?w1)\<rparr>)) = Some set_changed_size"
    by (rule broadcast_busy) (simp add: first_delivery_value(4))
  with upload_success_snd [OF first_delivery_value(5) n] c
  have 1: "snd (upload_cleaned_audio ?env 3 upload_txt ?w1) =
             Inl (RuntimeError ''Set changed size during iteration'')"
    by (simp add: set_changed_size_def)
  from upload_success_row [OF first_delivery_value(5) n] c
  have 2: "session_get (episodes (fst (upload_cleaned_audio ?env 3 upload_txt ?w1))) 3 = Some ?e2"
    by simp
  from first_delivery_value(1,5) n(2) 1 2 show ?thesis
    by simp
qed

text \<open>
  C5, amended. If a completion callback succeeded, delivering the same upload for the
  same episode again (at any later time, to any observers, with storage still working)
  leaves the stored state as the claim has it: the episode was made CLEANED by the first
  delivery and is CLEANED after the second, with the same artifact reference; the stored
  files, the feeds and the work channel are exactly as the first delivery left them, and
  the episode table differs only in the updated_at of that episode, which the second
  delivery refreshes. The second delivery is answered with the same response as the first
  when no websocket connects or disconnects while its completion event is broadcast.
\<close>

theorem duplicate_callback:
  assumes "upload_cleaned_audio env episode_id file w = (w1, Inr r1)" and "storage_ok env'"
  shows "\<exists>w2 e1.
           fst (upload_cleaned_audio env' episode_id file w1) = w2 \<and>
           (quiet env' w1 \<longrightarrow> snd (upload_cleaned_audio env' episode_id file w1) = Inr r1) \<and>
           session_get (episodes w1) episode_id = Some e1 \<and> status e1 = CLEANED \<and>
           local_filename e1 = up_local_filename r1 \<and>
           session_get (episodes w2) episode_id = Some (e1\<lparr>updated_at := utcnow env'\<rparr>) \<and>
           episodes w2 =
             map (\<lambda>x. if ep_id x = episode_id then x\<lparr>updated_at := utcnow env'\<rparr> else x)
               (episodes w1) \<and>
           files w2 = files w1 \<and> feeds w2 = feeds w1 \<and> broker w2 = broker w1"
proof -
  from assms(1) obtain e where
    e: "session_get (episodes w) episode_id = Some e" and n: "mp3_name file"
    and s: "storage_ok env"
    by (rule upload_Inr_cases)
  let ?e1 = "cleaned_row env episode_id file e"
  let ?r = "\<lparr>up_message = ''File uploaded successfully'', up_episode_id = episode_id,
             up_local_filename = local_filename ?e1\<rparr>"
  have id: "ep_id ?e1 = episode_id"
    using e by (auto simp: cleaned_row_def dest: session_get_Some)
  from assms(1) have a: "fst (upload_cleaned_audio env episode_id file w) = w1"
    "snd (upload_cleaned_audio env episode_id file w) = Inr r1"
    by simp_all
  from upload_success_fst [OF e n s] a(1)
  have w1: "episodes w1 = session_add ?e1 (episodes w)"
    and f1: "files w1 = AList.update (the (local_filename ?e1)) (content file) (files w)"
    by (auto simp: broadcast_frame)
  have r1: "r1 = ?r"
    using a(2) e n s by (rule upload_Inr_response)
  have g1: "session_get (episodes w1) episode_id = Some ?e1"
    using upload_success_row [OF e n s] a(1) by simp
  let ?w2 = "fst (upload_cleaned_audio env' episode_id file w1)"
  have same: "local_filename (cleaned_row env' episode_id file ?e1) = local_filename ?e1"
    by (simp add: cleaned_row_def)
  have u2: "snd (upload_cleaned_audio env' episode_id file w1) = Inr r1" if "quiet env' w1"
    using upload_success [OF g1 n assms(2) that] same r1 by simp
  have g2: "session_get (episodes ?w2) episode_id = Some (?e1\<lparr>updated_at := utcnow env'\<rparr>)"
    using upload_success_row [OF g1 n assms(2)] by (simp add: cleaned_row_twice)
  have t2: "episodes ?w2 =
      map (\<lambda>x. if ep_id x = episode_id then x\<lparr>updated_at := utcnow env'\<rparr> else x) (episodes w1)"
    using upload_success_fst [OF g1 n assms(2)] session_add_twice [of ?e1 ?e1 "utcnow env'" "episodes w"] id
    by (simp add: broadcast_frame cleaned_row_twice w1)
  have fs: "files ?w2 = files w1 \<and> feeds ?w2 = feeds w1 \<and> broker ?w2 = broker w1"
    using upload_success_fst [OF g1 n assms(2)]
    by (simp add: broadcast_frame f1 cleaned_row_def)
  have "status ?e1 = CLEANED" "local_filename ?e1 = up_local_filename r1"
    by (simp_all add: cleaned_row_def r1)
  with u2 g1 g2 t2 fs show ?thesis
    by - (rule exI [of _ ?w2], rule exI [of _ ?e1], simp)
qed

theorem duplicate_callback_witness:
  "storage_ok env0 \<and>
   upload_cleaned_audio env0 3 upload_txt world_abc =
     (fst (upload_cleaned_audio env0 3 upload_txt world_abc),
      Inr \<lparr>up_message = ''File uploaded successfully'', up_episode_id = 3,
           up_local_filename = Some ''1/3_a.mp3''\<rparr>) \<and>
   quiet (env0\<lparr>utcnow := 300\<rparr>) (fst (upload_cleaned_audio env0 3 upload_txt world_abc)) \<and>
   (\<exists>w2. upload_cleaned_audio (env0\<lparr>utcnow := 300\<rparr>) 3 upload_txt
            (fst (upload_cleaned_audio env0 3 upload_txt world_abc)) =
          (w2, Inr \<lparr>up_message = ''File uploaded successfully'', up_episode_id = 3,
                    up_local_filename = Some ''1/3_a.mp3''\<rparr>) \<and>
          files w2 = [(''1/3_a.mp3'', ''hello'')] \<and>
          map status (episodes w2) = [DISCOVERED, FAILED, CLEANED])"
proof -
  let ?w1 = "fst (upload_cleaned_audio env0 3 upload_txt world_abc)"
  let ?r = "\<lparr>up_message = ''File uploaded successfully'', up_episode_id = 3,
             up_local_filename = Some ''1/3_a.mp3''\<rparr>"
  have 1: "upload_cleaned_audio env0 3 upload_txt world_abc = (?w1, Inr ?r)"
    using first_delivery_value(1) by (simp add: prod_eq_iff)
  have 2: "storage_ok (env0\<lparr>utcnow := 300\<rparr>)" "storage_ok env0"
    "quiet (env0\<lparr>utcnow := 300\<rparr>) ?w1"
    by (simp_all add: env0_def quiet_def)
  have 3: "files ?w1 = [(''1/3_a.mp3'', ''hello'')]"
    "map status (episodes ?w1) = [DISCOVERED, FAILED, CLEANED]"
    using first_delivery_value by simp_all
  from duplicate_callback [OF 1 2(1)] 2(3) obtain w2 where
    w2: "fst (upload_cleaned_audio (env0\<lparr>utcnow := 300\<rparr>) 3 upload_txt ?w1) = w2"
    "snd (upload_cleaned_audio (env0\<lparr>utcnow := 300\<rparr>) 3 upload_txt ?w1) = Inr ?r"
    and e: "episodes w2 =
             map (\<lambda>x. if ep_id x = 3 then x\<lparr>updated_at := utcnow (env0\<lparr>utcnow := 300\<rparr>)\<rparr> else x)
               (episodes ?w1)"
    and f: "files w2 = files ?w1"
    by blast
  have "map status (episodes w2) = map status (episodes ?w1)"
    unfolding e by (simp add: comp_def if_distrib cong: if_cong)
  moreover from w2 have "upload_cleaned_audio (env0\<lparr>utcnow := 300\<rparr>) 3 upload_txt ?w1 = (w2, Inr ?r)"
    by (simp add: prod_eq_iff)
  ultimately show ?thesis using 1 2 3 f by auto
qed

section \<open>Feed creation\<close>

text \<open>
  C10. When the URL is new, metadata extraction succeeds and the ingestion pass that
  follows raises, \<^verbatim>\<open>create_feed\<close> still answers with the new feed as a success: the Feed
  row is in the committed table, the error is swallowed, the episode table is unchanged
  and (feed ids coming from the sequence) the new feed has no episode.
\<close>

theorem create_feed_swallows_ingest_error:
  assumes "find (\<lambda>f. rss_url f = url) (feeds w) = None"
    and "extract_feed_metadata env url = Some metadata"
    and "ingest_feed env (feed_seq w + 1)
           (w\<lparr>feeds := feeds w @ [new_feed_row env url metadata w], feed_seq := feed_seq w + 1\<rparr>)
         = Inl e"
  shows "create_feed env url w =
           (w\<lparr>feeds := feeds w @ [new_feed_row env url metadata w], feed_seq := feed_seq w + 1\<rparr>,
            Inr (new_feed_row env url metadata w)) \<and>
         new_feed_row env url metadata w \<in> set (feeds (fst (create_feed env url w))) \<and>
         episodes (fst (create_feed env url w)) = episodes w \<and>
         ((\<forall>x \<in> set (episodes w). feed_id x \<le> feed_seq w) \<longrightarrow>
            filter (\<lambda>x. feed_id x = fd_id (new_feed_row env url metadata w))
              (episodes (fst (create_feed env url w))) = [])"
proof -
  have c: "create_feed env url w =
           (w\<lparr>feeds := feeds w @ [new_feed_row env url metadata w], feed_seq := feed_seq w + 1\<rparr>,
            Inr (new_feed_row env url metadata w))"
    using assms by (simp add: create_feed_def new_feed_row_def Let_def)
  have "filter (\<lambda>x. feed_id x = feed_seq w + 1) (episodes w) = []"
    if "\<forall>x \<in> set (episodes w). feed_id x \<le> feed_seq w"
    using that by (auto simp: filter_empty_conv)
  with c show ?thesis
    by (simp add: new_feed_row_def)
qed

theorem create_feed_swallows_ingest_error_witness:
  "find (\<lambda>f. rss_url f = ''http://new/rss'') (feeds world_abc) = None \<and>
   fetch_feed env_unreachable ''http://new/rss'' = Inl FeedUnreachable \<and>
   snd (create_feed env_unreachable ''http://new/rss'' world_abc) =
     Inr \<lparr>fd_id = 2, fd_title = ''Show (Purified)'', rss_url = ''http://new/rss'',
          auto_process = False, fd_created_at = 100, fd_updated_at = 100\<rparr> \<and>
   map fd_id (feeds (fst (create_feed env_unreachable ''http://new/rss'' world_abc))) = [1, 2] \<and>
   episodes (fst (create_feed env_unreachable ''http://new/rss'' world_abc)) = episodes world_abc \<and>
   filter (\<lambda>x. feed_id x = 2) (episodes (fst (create_feed env_unreachable ''http://new/rss'' world_abc))) = []"
proof -
  let ?md = "\<lparr>md_title = ''Show'', md_description = None, md_image_url = None, md_author = None\<rparr>"
  have 1: "find (\<lambda>f. rss_url f = ''http://new/rss'') (feeds world_abc) = None"
    by (simp add: world_abc_def feed_1_def)
  have 2: "extract_feed_metadata env_unreachable ''http://new/rss'' = Some ?md"
    by (simp add: env_unreachable_def env0_def)
  have 3: "ingest_feed env_unreachable (feed_seq world_abc + 1)
           (world_abc\<lparr>feeds := feeds world_abc @ [new_feed_row env_unreachable ''http://new/rss'' ?md world_abc],
                      feed_seq := feed_seq world_abc + 1\<rparr>) = Inl FeedUnreachable"
    by (simp add: ingest_feed_def get_feed_def world_abc_def feed_1_def new_feed_row_def
        env_unreachable_def env0_def)
  have 4: "\<forall>x \<in> set (episodes world_abc). feed_id x \<le> feed_seq world_abc"
    by (simp add: world_abc_def episode_a_def episode_b_def episode_c_def)
  have 5: "fetch_feed env_unreachable ''http://new/rss'' = Inl FeedUnreachable"
    by (simp add: env_unreachable_def env0_def)
  from create_feed_swallows_ingest_error [OF 1 2 3] 1 4 5 show ?thesis
    by (simp add: new_feed_row_def world_abc_def feed_1_def env_unreachable_def env0_def)
qed

section \<open>Feed publisher\<close>

lemma rss_items_eq: "rss_items xs = map make_item (filter (\<lambda>e. truthy (local_filename e)) xs)"
  by (induction xs) auto

lemma published_episodes:
  "filter (\<lambda>e. truthy (local_filename e)) (select_cleaned fid tbl) =
     sort_key (\<lambda>e. - created_at e) (filter (publishable fid) tbl)"
proof -
  have "filter (\<lambda>e. truthy (local_filename e)) (filter (\<lambda>e. feed_id e = fid \<and> status e = CLEANED) tbl)
        = filter (publishable fid) tbl"
    by (induction tbl) (auto simp: publishable_def)
  then show ?thesis
    by (simp only: select_cleaned_def filter_sort)
qed

text \<open>
  C8. An unknown feed id fails with 404. For a known feed id the document's items are
  \<open>make_item\<close> of a list of episodes that holds exactly the feed's episodes that are
  CLEANED and have an artifact path, each once (so a CLEANED episode without a path is
  left out), ordered by created_at, newest first; every item's enclosure URL is
  \<^verbatim>\<open>https://PUBLIC_HOSTNAME/files/\<close> followed by the artifact path.
\<close>

theorem published_feed:
  "(get_feed (feeds w) fid = None \<longrightarrow>
      get_feed_rss env fid w = Inl (HTTPException 404 (''Feed '' @ str_int fid @ '' not found''))) \<and>
   (get_feed (feeds w) fid \<noteq> None \<longrightarrow>
      (\<exists>doc es. get_feed_rss env fid w = Inr doc \<and> ch_items doc = map make_item es \<and>
         mset es = mset (filter (publishable fid) (episodes w)) \<and>
         sorted_wrt (\<lambda>a b. created_at b \<le> created_at a) es \<and>
         (\<forall>e \<in> set es. enc_url (it_enclosure (make_item e)) =
            ''https://'' @ PUBLIC_HOSTNAME @ ''/files/'' @ the (local_filename e))))"
proof (cases "get_feed (feeds w) fid")
  case None
  then show ?thesis by (simp add: get_feed_rss_def)
next
  case (Some feed)
  let ?es = "sort_key (\<lambda>e. - created_at e) (filter (publishable fid) (episodes w))"
  have "sorted (map (\<lambda>e. - created_at e) ?es)"
    by (rule sorted_sort_key)
  then have s: "sorted_wrt (\<lambda>a b. created_at b \<le> created_at a) ?es"
    by (simp add: sorted_map)
  have i: "ch_items (projr (get_feed_rss env fid w)) = map make_item ?es"
    using Some by (simp add: get_feed_rss_def rss_items_eq published_episodes)
  have d: "get_feed_rss env fid w = Inr (projr (get_feed_rss env fid w))"
    using Some by (simp add: get_feed_rss_def)
  have m: "mset ?es = mset (filter (publishable fid) (episodes w))"
    by simp
  have u: "\<forall>e \<in> set ?es. enc_url (it_enclosure (make_item e)) =
            ''https://'' @ PUBLIC_HOSTNAME @ ''/files/'' @ the (local_filename e)"
    by (simp add: make_item_def)
  have "\<exists>doc es. get_feed_rss env fid w = Inr doc \<and> ch_items doc = map make_item es \<and>
         mset es = mset (filter (publishable fid) (episodes w)) \<and>
         sorted_wrt (\<lambda>a b. created_at b \<le> created_at a) es \<and>
         (\<forall>e \<in> set es. enc_url (it_enclosure (make_item e)) =
            ''https://'' @ PUBLIC_HOSTNAME @ ''/files/'' @ the (local_filename e))"
    using d i m s u
    by - (rule exI [of _ "projr (get_feed_rss env fid w)"], rule exI [of _ ?es], blast)
  with Some show ?thesis by simp
qed

lemma world_rss_value:
  "map (\<lambda>i. (it_guid i, enc_url (it_enclosure i))) (ch_items (projr (get_feed_rss env1 1 world_rss))) =
     [(''g2'', ''https://localhost/files/1/2_x.mp3''), (''g1'', ''https://localhost/files/1/1_x.mp3'')]"
  "get_feed_rss env1 9 world_rss = Inl (HTTPException 404 ''Feed 9 not found'')"
  "filter (publishable 1) (episodes world_rss) =
     [cleaned_episode 1 1 (Some ''1/1_x.mp3'') 10, cleaned_episode 2 1 (Some ''1/2_x.mp3'') 20]"
  by code_simp+


theorem published_feed_witness:
  "get_feed (feeds world_rss) 9 = None \<and>
   get_feed_rss env1 9 world_rss = Inl (HTTPException 404 ''Feed 9 not found'') \<and>
   get_feed (feeds world_rss) 1 \<noteq> None \<and>
   (\<exists>doc es. get_feed_rss env1 1 world_rss = Inr doc \<and> ch_items doc = map make_item es \<and>
      mset es = mset [cleaned_episode 1 1 (Some ''1/1_x.mp3'') 10,
                      cleaned_episode 2 1 (Some ''1/2_x.mp3'') 20] \<and>
      sorted_wrt (\<lambda>a b. created_at b \<le> created_at a) es) \<and>
   map (\<lambda>i. (it_guid i, enc_url (it_enclosure i))) (ch_items (projr (get_feed_rss env1 1 world_rss))) =
     [(''g2'', ''https://localhost/files/1/2_x.mp3''), (''g1'', ''https://localhost/files/1/1_x.mp3'')]"
proof -
  have g: "get_feed (feeds world_rss) 9 = None" "get_feed (feeds world_rss) 1 \<noteq> None"
    by (simp_all add: world_rss_def world_abc_def get_feed_def feed_1_def)
  from published_feed [of world_rss 9 env1] published_feed [of world_rss 1 env1] g world_rss_value
  show ?thesis by (simp add: str_int_def str_nat.simps digit_char_def) blast
qed

section \<open>Executor retry policy\<close>

lemma process_episode_success:
  "attempt_error a = None \<Longrightarrow>
   snd (process_episode r a i) = SUCCESS \<and>
   last (fst (process_episode r a i)) = \<lparr>ev_episode_id = i, progress = 100, stage = ''completed''\<rparr>"
  by (auto simp: attempt_error_def process_episode_def report_progress_def Let_def
      split: option.splits)

lemma process_episode_other:
  "attempt_error a = Some OtherException \<Longrightarrow>
   snd (process_episode r a i) = FAILURE OtherException \<and>
   last (fst (process_episode r a i)) = \<lparr>ev_episode_id = i, progress = 0, stage = ''failed''\<rparr>"
  by (auto simp: attempt_error_def process_episode_def on_exception_def report_progress_def
      Let_def split: option.splits)

lemma process_episode_network:
  "attempt_error a = Some RequestException \<Longrightarrow>
   snd (process_episode r a i) = (if r < 3 then RETRY 60 else FAILURE RequestException) \<and>
   last (fst (process_episode r a i)) = \<lparr>ev_episode_id = i, progress = 0, stage = ''failed''\<rparr>"
  by (auto simp: attempt_error_def process_episode_def on_exception_def self_retry_def
      report_progress_def Let_def split: option.splits)

lemma attempt_error_cases:
  obtains "attempt_error a = None" | "attempt_error a = Some OtherException"
  | "attempt_error a = Some RequestException"
  by (cases "attempt_error a") (auto intro: exn.exhaust)

lemma run_task_unfold:
  "run_task script i r =
     (if attempt_error (script r) = Some RequestException \<and> r < 3
      then process_episode r (script r) i # run_task script i (Suc r)
      else [process_episode r (script r) i])"
proof (cases "process_episode r (script r) i")
  case (Pair evs res)
  show ?thesis
  proof (cases rule: attempt_error_cases [of "script r"])
    case 1
    with Pair process_episode_success [OF 1, of r i] show ?thesis
      by (subst run_task.simps) simp
  next
    case 2
    with Pair process_episode_other [OF 2, of r i] show ?thesis
      by (subst run_task.simps) simp
  next
    case 3
    with Pair process_episode_network [OF 3, of r i] show ?thesis
      by (subst run_task.simps) (simp split: if_splits)
  qed
qed

lemma run_task_nonempty: "run_task script i r \<noteq> []"
  by (subst run_task_unfold) simp

lemma run_task_length: "length (run_task script i r) \<le> 4 - r \<or> length (run_task script i r) = 1"
proof (induction "3 - r" arbitrary: r)
  case 0
  then show ?case by (subst (1 2) run_task_unfold) simp
next
  case (Suc n)
  then have "n = 3 - Suc r" by simp
  from Suc.hyps(1) [OF this] Suc.hyps(2) show ?case
    by (subst (1 2) run_task_unfold) auto
qed

lemma run_task_nth:
  "k < length (run_task script i r) \<Longrightarrow>
   run_task script i r ! k = process_episode (r + k) (script (r + k)) i"
proof (induction k arbitrary: r)
  case 0
  show ?case by (subst run_task_unfold) simp
next
  case (Suc k)
  from Suc.prems have c: "attempt_error (script r) = Some RequestException \<and> r < 3"
    by (subst (asm) run_task_unfold) (simp split: if_splits)
  with Suc.prems have "k < length (run_task script i (Suc r))"
    by (subst (asm) run_task_unfold) simp
  from Suc.IH [OF this] c show ?case
    by (subst run_task_unfold) simp
qed

lemma run_task_retried:
  "k < length (run_task script i r) \<Longrightarrow>
   (Suc k < length (run_task script i r)) =
     (attempt_error (script (r + k)) = Some RequestException \<and> r + k < 3)"
proof (induction k arbitrary: r)
  case 0
  show ?case using run_task_nonempty [of script i "Suc r"]
    by (subst run_task_unfold) (auto simp: Suc_less_eq2)
next
  case (Suc k)
  from Suc.prems have c: "attempt_error (script r) = Some RequestException \<and> r < 3"
    by (subst (asm) run_task_unfold) (simp split: if_splits)
  with Suc.prems have "k < length (run_task script i (Suc r))"
    by (subst (asm) run_task_unfold) simp
  from Suc.IH [OF this] c show ?case
    by (subst run_task_unfold) simp
qed


text \<open>
  C7. The worker executes a task at least once and at most four times: the first
  execution and at most three retries. Execution k (counting from 0, with
  \<^verbatim>\<open>request.retries = k\<close>) is followed by another one exactly when it met a network error
  and k < 3, and then it ended by scheduling the retry with a countdown of 60 seconds; a
  network error in the execution after three retries surfaces as the task's failure; any
  other error fails the task at once, with no retry; an execution without error succeeds
  and is the last. Every execution that met an error reported last, before it retried
  or gave up, the event of its episode with progress 0 and stage failed.
\<close>

theorem retry_policy:
  "(let tr = run_task script i 0 in
      tr \<noteq> [] \<and> length tr \<le> 4 \<and>
      (\<forall>k < length tr.
         tr ! k = process_episode k (script k) i \<and>
         (Suc k < length tr) = (attempt_error (script k) = Some RequestException \<and> k < 3) \<and>
         (Suc k < length tr \<longrightarrow> snd (tr ! k) = RETRY 60) \<and>
         (attempt_error (script k) = Some RequestException \<and> k = 3 \<longrightarrow>
            snd (tr ! k) = FAILURE RequestException) \<and>
         (attempt_error (script k) = Some OtherException \<longrightarrow>
            snd (tr ! k) = FAILURE OtherException \<and> Suc k = length tr) \<and>
         (attempt_error (script k) = None \<longrightarrow> snd (tr ! k) = SUCCESS \<and> Suc k = length tr) \<and>
         (attempt_error (script k) \<noteq> None \<longrightarrow>
            last (fst (tr ! k)) = \<lparr>ev_episode_id = i, progress = 0, stage = ''failed''\<rparr>)))"
proof -
  let ?tr = "run_task script i 0"
  have len: "length ?tr \<le> 4"
    using run_task_length [of script i 0] by auto
  have each: "?tr ! k = process_episode k (script k) i \<and>
         (Suc k < length ?tr) = (attempt_error (script k) = Some RequestException \<and> k < 3) \<and>
         (Suc k < length ?tr \<longrightarrow> snd (?tr ! k) = RETRY 60) \<and>
         (attempt_error (script k) = Some RequestException \<and> k = 3 \<longrightarrow>
            snd (?tr ! k) = FAILURE RequestException) \<and>
         (attempt_error (script k) = Some OtherException \<longrightarrow>
            snd (?tr ! k) = FAILURE OtherException \<and> Suc k = length ?tr) \<and>
         (attempt_error (script k) = None \<longrightarrow> snd (?tr ! k) = SUCCESS \<and> Suc k = length ?tr) \<and>
         (attempt_error (script k) \<noteq> None \<longrightarrow>
            last (fst (?tr ! k)) = \<lparr>ev_episode_id = i, progress = 0, stage = ''failed''\<rparr>)"
    if k: "k < length ?tr" for k
  proof -
    have n: "?tr ! k = process_episode k (script k) i"
      using run_task_nth [OF k] by simp
    have r: "(Suc k < length ?tr) = (attempt_error (script k) = Some RequestException \<and> k < 3)"
      using run_task_retried [OF k] by simp
    show ?thesis
    proof (cases rule: attempt_error_cases [of "script k"])
      case 1
      with n r k process_episode_success [OF 1, of k i] show ?thesis by auto
    next
      case 2
      with n r k process_episode_other [OF 2, of k i] show ?thesis by auto
    next
      case 3
      with n r k process_episode_network [OF 3, of k i] show ?thesis by auto
    qed
  qed
  from len each run_task_nonempty [of script i 0] show ?thesis
    unfolding Let_def by blast
qed

lemma run_task_values:
  "map snd (run_task net_fail 7 0) = [RETRY 60, RETRY 60, RETRY 60, FAILURE RequestException]"
  "map snd (run_task flaky 7 0) = [RETRY 60, RETRY 60, SUCCESS]"
  "map snd (run_task broken 7 0) = [FAILURE OtherException]"
  "map (\<lambda>e. (progress e, stage e)) (fst (last (run_task net_fail 7 0))) =
     [(10, ''downloading''), (0, ''failed'')]"
  by code_simp+

theorem retry_policy_witness:
  "length (run_task net_fail 7 0) = 4 \<and> attempt_error (net_fail 3) = Some RequestException \<and>
   snd (run_task net_fail 7 0 ! 3) = FAILURE RequestException \<and>
   last (fst (run_task net_fail 7 0 ! 3)) = \<lparr>ev_episode_id = 7, progress = 0, stage = ''failed''\<rparr> \<and>
   map snd (run_task net_fail 7 0) = [RETRY 60, RETRY 60, RETRY 60, FAILURE RequestException] \<and>
   map snd (run_task flaky 7 0) = [RETRY 60, RETRY 60, SUCCESS] \<and>
   map snd (run_task broken 7 0) = [FAILURE OtherException]"
proof -
  have l: "length (run_task net_fail 7 0) = 4"
    using arg_cong [OF run_task_values(1), of length] by simp
  have a: "attempt_error (net_fail 3) = Some RequestException"
    by (simp add: attempt_error_def net_fail_def)
  have k: "3 < length (run_task net_fail 7 0)"
    using l by simp
  have "snd (run_task net_fail 7 0 ! 3) = FAILURE RequestException \<and>
        last (fst (run_task net_fail 7 0 ! 3)) = \<lparr>ev_episode_id = 7, progress = 0, stage = ''failed''\<rparr>"
    using retry_policy [of net_fail 7] k a unfolding Let_def by blast
  with l a run_task_values show ?thesis
    by simp
qed

end
